theory Spec2Isabelle
  imports Complex_Main "HOL-Library.Word"
begin

unbundle bit_operations_syntax

section \<open>xsct: the gamma-ramp colour model of \<^verbatim>\<open>src/xsct.c\<close>\<close>

text \<open>
  Conventions of the embedding.
  \<^item> A C \<^verbatim>\<open>double\<close> is a \<open>real\<close>, and the decimal literals of the source are the
    rationals they denote; \<^verbatim>\<open>log\<close> and \<^verbatim>\<open>exp\<close> are \<open>ln\<close> and \<open>exp\<close>.
  \<^item> \<^verbatim>\<open>long\<close> and \<^verbatim>\<open>int\<close> values are \<open>int\<close>; the one unsigned comparison of the
    source is made on \<open>32 word\<close>; \<^verbatim>\<open>unsigned short\<close> is \<open>16 word\<close>.
  \<^item> The X server is a list of screens, each a list of CRTCs, each holding its gamma
    ramp. Every call of \<^verbatim>\<open>XRRSetCrtcGamma\<close> is also appended to a log of writes.
  \<^item> A read outside an array (undefined behaviour in C) is the result \<open>None\<close>.
  \<^item> Of the logging functions only the effect on the flag \<^verbatim>\<open>fail\<close> is kept; the text
    printed on the standard streams is not part of the model.
\<close>

subsection \<open>Constants\<close>

definition BRIGHTNESS_DIV :: real where "BRIGHTNESS_DIV = 65470988 / 1000"
definition MINTEMP :: int where "MINTEMP = 700"
definition TEMP_NORM :: int where "TEMP_NORM = 6500"
definition MIN_DELTA :: int where "MIN_DELTA = - 1000000"
definition GAMMA_MULT :: real where "GAMMA_MULT = 65535"

definition GAMMA_K0GR :: real where "GAMMA_K0GR = - (147751309139817 / 10 ^ 14)"
definition GAMMA_K1GR :: real where "GAMMA_K1GR = 28590164772055 / 10 ^ 14"
definition GAMMA_K0BR :: real where "GAMMA_K0BR = - (438321650114872 / 10 ^ 14)"
definition GAMMA_K1BR :: real where "GAMMA_K1BR = 6212158769447 / 10 ^ 13"
definition GAMMA_K0RB :: real where "GAMMA_K0RB = 175390204039018 / 10 ^ 14"
definition GAMMA_K1RB :: real where "GAMMA_K1RB = - (1150805671482 / 10 ^ 13)"
definition GAMMA_K0GB :: real where "GAMMA_K0GB = 149221604915144 / 10 ^ 14"
definition GAMMA_K1GB :: real where "GAMMA_K1GB = - (7513509588921 / 10 ^ 14)"

definition TOGGLE_DELTA :: int where "TOGGLE_DELTA = 200"

definition has_h :: "32 word" where "has_h = 1"
definition has_d :: "32 word" where "has_d = 2"
definition has_t :: "32 word" where "has_t = 4"

definition EXIT_SUCCESS :: int where "EXIT_SUCCESS = 0"
definition EXIT_FAILURE :: int where "EXIT_FAILURE = 1"

subsection \<open>Data\<close>

record tempstate =
  temp :: int
  brightness :: real

record sgamma =
  red :: real
  green :: real
  blue :: real

text \<open>\<^verbatim>\<open>XRRCrtcGamma\<close>: the ramp of one CRTC.\<close>

record crtcgamma =
  gsize :: nat
  gred :: "16 word list"
  ggreen :: "16 word list"
  gblue :: "16 word list"

text \<open>The global variables that are fixed once the command line and the environment are read.\<close>

record globals =
  crtc_arg :: int
  screen_arg :: int
  temp_day :: int
  temp_night :: int

text \<open>The state that changes: the ramps held by the server, the calls of
  \<^verbatim>\<open>XRRSetCrtcGamma\<close> made so far (screen, CRTC index, ramp) and the flag \<^verbatim>\<open>fail\<close>.\<close>

record xstate =
  screens :: "crtcgamma list list"
  setlog :: "(int \<times> nat \<times> crtcgamma) list"
  fail :: bool

subsection \<open>Helpers of the C semantics\<close>

text \<open>Conversion of a \<^verbatim>\<open>double\<close> to an integer type truncates towards zero.\<close>

definition ctrunc :: "real \<Rightarrow> int" where
  "ctrunc x = (if 0 \<le> x then \<lfloor>x\<rfloor> else \<lceil>x\<rceil>)"

definition to_ushort :: "real \<Rightarrow> 16 word" where
  "to_ushort x = word_of_int (ctrunc x)"

definition MAX_c :: "real \<Rightarrow> real \<Rightarrow> real" where
  "MAX_c x y = (if x > y then x else y)"

definition trimdouble :: "real \<Rightarrow> real \<Rightarrow> real \<Rightarrow> real" where
  "trimdouble x a b = [a, x, b] ! ((if x > a then 1 else 0) + (if x > b then 1 else 0))"

subsection \<open>Controller selection\<close>

text \<open>Lines 207--211 and 296--299: the first index and the number of CRTCs of the loop.\<close>

definition crtcsel :: "int \<Rightarrow> int \<Rightarrow> int \<times> int" where
  "crtcsel icrtc ncrtc =
     (if (word_of_int icrtc :: 32 word) < word_of_int ncrtc then (icrtc, 1) else (0, ncrtc))"

text \<open>The values of \<^verbatim>\<open>c\<close> in \<^verbatim>\<open>for (int c = icrtc; c < (icrtc + ncrtc); c++)\<close>.\<close>

definition crtcloop :: "int \<Rightarrow> int \<Rightarrow> int list" where
  "crtcloop icrtc ncrtc = (case crtcsel icrtc ncrtc of (i, n) \<Rightarrow> [i..i + n - 1])"

subsection \<open>Reading: \<^verbatim>\<open>getscreengamma\<close> and \<^verbatim>\<open>getst\<close>\<close>

definition getscreen :: "xstate \<Rightarrow> int \<Rightarrow> crtcgamma list option" where
  "getscreen st iscreen =
     (if 0 \<le> iscreen \<and> iscreen < int (length (screens st))
      then Some (screens st ! nat iscreen) else None)"

definition rampat :: "16 word list \<Rightarrow> int \<Rightarrow> real option" where
  "rampat xs gi =
     (if 0 \<le> gi \<and> gi < int (length xs) then Some (real (unat (xs ! nat gi))) else None)"

text \<open>The body of the loop of \<^verbatim>\<open>getscreengamma\<close> for one CRTC.\<close>

definition addpeak :: "crtcgamma list \<Rightarrow> int \<Rightarrow> sgamma \<Rightarrow> sgamma option" where
  "addpeak crtcs c sg =
     (if 0 \<le> c \<and> c < int (length crtcs) then
        (let xrr_gamma = crtcs ! nat c; gi = int (gsize xrr_gamma) - 1 in
         case (rampat (gred xrr_gamma) gi, rampat (ggreen xrr_gamma) gi,
               rampat (gblue xrr_gamma) gi) of
           (Some r, Some g, Some b) \<Rightarrow>
             Some \<lparr>red = red sg + r, green = green sg + g, blue = blue sg + b\<rparr>
         | _ \<Rightarrow> None)
      else None)"

fun sumpeaks :: "crtcgamma list \<Rightarrow> int list \<Rightarrow> sgamma \<Rightarrow> sgamma option" where
  "sumpeaks crtcs [] sg = Some sg"
| "sumpeaks crtcs (c # cs) sg =
     (case addpeak crtcs c sg of None \<Rightarrow> None | Some sg' \<Rightarrow> sumpeaks crtcs cs sg')"

definition getscreengamma :: "xstate \<Rightarrow> int \<Rightarrow> int \<Rightarrow> (int \<times> sgamma) option" where
  "getscreengamma st iscreen icrtc =
     (case getscreen st iscreen of
        None \<Rightarrow> None
      | Some crtcs \<Rightarrow>
          (let ncrtc = int (length crtcs) in
           case sumpeaks crtcs (crtcloop icrtc ncrtc) \<lparr>red = 0, green = 0, blue = 0\<rparr> of
             None \<Rightarrow> None
           | Some sg \<Rightarrow> Some (snd (crtcsel icrtc ncrtc), sg)))"

text \<open>Lines 235--268 of \<^verbatim>\<open>getst\<close>: from the summed peaks to the estimated state.\<close>

definition gammatemp :: "int \<Rightarrow> sgamma \<Rightarrow> tempstate" where
  "gammatemp ncrtc sg0 =
     (let b0 = MAX_c (blue sg0) (MAX_c (red sg0) (green sg0)) in
      if b0 > 0 \<and> ncrtc > 0 then
        (let sg = \<lparr>red = red sg0 / b0, green = green sg0 / b0, blue = blue sg0 / b0\<rparr>;
             b = trimdouble (b0 / real_of_int ncrtc / BRIGHTNESS_DIV) 0 1;
             gdelta = blue sg - red sg;
             t = (if gdelta < 0 then
                    (if blue sg > 0 then
                       exp ((green sg + 1 + gdelta - (GAMMA_K0GR + GAMMA_K0BR)) /
                            (GAMMA_K1GR + GAMMA_K1BR)) + real_of_int MINTEMP
                     else if green sg > 0 then
                       exp ((green sg - GAMMA_K0GR) / GAMMA_K1GR) + real_of_int MINTEMP
                     else real_of_int MINTEMP)
                  else
                    exp ((green sg + 1 - gdelta - (GAMMA_K0GB + GAMMA_K0RB)) /
                         (GAMMA_K1GB + GAMMA_K1RB)) + real_of_int (TEMP_NORM - MINTEMP))
         in \<lparr>temp = ctrunc (t + 0.5), brightness = b\<rparr>)
      else \<lparr>temp = ctrunc (0 + 0.5), brightness = trimdouble b0 0 1\<rparr>)"

definition getst :: "xstate \<Rightarrow> int \<Rightarrow> int \<Rightarrow> tempstate option" where
  "getst st iscreen icrtc =
     (case getscreengamma st iscreen icrtc of
        None \<Rightarrow> None
      | Some (ncrtc, sg) \<Rightarrow> Some (gammatemp ncrtc sg))"

subsection \<open>Writing: \<^verbatim>\<open>setst\<close>\<close>

text \<open>Lines 280--293 of \<^verbatim>\<open>setst\<close>: the gamma multipliers of a temperature.\<close>

definition tempgamma :: "int \<Rightarrow> sgamma" where
  "tempgamma tmp =
     (let t = real_of_int tmp in
      if tmp < TEMP_NORM then
        (if tmp > MINTEMP then
           (let g = ln (t - real_of_int MINTEMP) in
            \<lparr>red = 1,
             green = trimdouble (GAMMA_K0GR + GAMMA_K1GR * g) 0 1,
             blue = trimdouble (GAMMA_K0BR + GAMMA_K1BR * g) 0 1\<rparr>)
         else \<lparr>red = 1, green = 0, blue = 0\<rparr>)
      else
        (let g = ln (t - real_of_int (TEMP_NORM - MINTEMP)) in
         \<lparr>red = trimdouble (GAMMA_K0RB + GAMMA_K1RB * g) 0 1,
          green = trimdouble (GAMMA_K0GB + GAMMA_K1GB * g) 0 1,
          blue = 1\<rparr>))"

text \<open>Lines 302--309: the ramp of \<^verbatim>\<open>size\<close> points computed for one CRTC.\<close>

definition rampval :: "real \<Rightarrow> nat \<Rightarrow> real \<Rightarrow> nat \<Rightarrow> 16 word" where
  "rampval b sz m i = to_ushort (GAMMA_MULT * b * real i / real sz * m + 0.5)"

definition mkramp :: "sgamma \<Rightarrow> real \<Rightarrow> nat \<Rightarrow> crtcgamma" where
  "mkramp sg b sz =
     \<lparr>gsize = sz,
      gred = map (rampval b sz (red sg)) [0..<sz],
      ggreen = map (rampval b sz (green sg)) [0..<sz],
      gblue = map (rampval b sz (blue sg)) [0..<sz]\<rparr>"

text \<open>The body of the loop of \<^verbatim>\<open>setst\<close> for one CRTC: the new ramp has the size the
  CRTC reports and replaces the old one.\<close>

definition setcrtc ::
  "sgamma \<Rightarrow> real \<Rightarrow> int \<Rightarrow> int \<Rightarrow> crtcgamma list \<times> (int \<times> nat \<times> crtcgamma) list
     \<Rightarrow> (crtcgamma list \<times> (int \<times> nat \<times> crtcgamma) list) option" where
  "setcrtc sg b iscreen c acc =
     (case acc of (crtcs, lg) \<Rightarrow>
        if 0 \<le> c \<and> c < int (length crtcs) then
          (let r = mkramp sg b (gsize (crtcs ! nat c))
           in Some (crtcs[nat c := r], lg @ [(iscreen, nat c, r)]))
        else None)"

fun setcrtcs ::
  "sgamma \<Rightarrow> real \<Rightarrow> int \<Rightarrow> int list \<Rightarrow> crtcgamma list \<times> (int \<times> nat \<times> crtcgamma) list
     \<Rightarrow> (crtcgamma list \<times> (int \<times> nat \<times> crtcgamma) list) option" where
  "setcrtcs sg b iscreen [] acc = Some acc"
| "setcrtcs sg b iscreen (c # cs) acc =
     (case setcrtc sg b iscreen c acc of
        None \<Rightarrow> None
      | Some acc' \<Rightarrow> setcrtcs sg b iscreen cs acc')"

definition setst :: "xstate \<Rightarrow> int \<Rightarrow> int \<Rightarrow> tempstate \<Rightarrow> xstate option" where
  "setst st iscreen icrtc ts =
     (case getscreen st iscreen of
        None \<Rightarrow> None
      | Some crtcs \<Rightarrow>
          (let b = trimdouble (brightness ts) 0 1;
               sg = tempgamma (temp ts);
               ncrtc = int (length crtcs)
           in case setcrtcs sg b iscreen (crtcloop icrtc ncrtc) (crtcs, setlog st) of
                None \<Rightarrow> None
              | Some (crtcs', lg) \<Rightarrow>
                  Some (st\<lparr>screens := (screens st)[nat iscreen := crtcs'], setlog := lg\<rparr>)))"

subsection \<open>Bounds\<close>

text \<open>\<^verbatim>\<open>boundtemp\<close> and \<^verbatim>\<open>boundbrightness\<close> return the corrected value.\<close>

definition boundtemp :: "int \<Rightarrow> int \<Rightarrow> int" where
  "boundtemp tmp dfl =
     (if tmp \<le> 0 then (if dfl < 0 then TEMP_NORM else dfl)
      else if tmp < MINTEMP then (if dfl < 0 then MINTEMP else dfl)
      else tmp)"

definition boundbrightness :: "real \<Rightarrow> real" where
  "boundbrightness br = (if br < 0 then 0 else if br > 1 then 1 else br)"

text \<open>\<^verbatim>\<open>boundts\<close> calls both and drops what they return: nothing is stored through the
  pointer, so the state of the caller is the one it passed.\<close>

definition boundts :: "tempstate \<Rightarrow> tempstate" where
  "boundts ts =
     (let dropped_temp = boundtemp (temp ts) (- 1);
          dropped_brightness = boundbrightness (brightness ts)
      in ts)"

subsection \<open>Policies\<close>

text \<open>Lines 412--415: the temperature \<^verbatim>\<open>toggledaynight\<close> switches to.\<close>

definition toggletemp :: "globals \<Rightarrow> tempstate \<Rightarrow> tempstate" where
  "toggletemp g ts =
     (if temp ts > temp_day g - TOGGLE_DELTA
      then ts\<lparr>temp := temp_night g\<rparr> else ts\<lparr>temp := temp_day g\<rparr>)"

fun togglescreens :: "globals \<Rightarrow> int list \<Rightarrow> xstate \<Rightarrow> xstate option" where
  "togglescreens g [] st = Some st"
| "togglescreens g (i # is) st =
     (case getst st i (crtc_arg g) of
        None \<Rightarrow> None
      | Some ts \<Rightarrow>
          (case setst st i (crtc_arg g) (toggletemp g ts) of
             None \<Rightarrow> None
           | Some st' \<Rightarrow> togglescreens g is st'))"

definition toggledaynight :: "globals \<Rightarrow> int \<Rightarrow> xstate \<Rightarrow> xstate option" where
  "toggledaynight g nscreen st = togglescreens g [0..nscreen - 1] st"

fun estimatescreens :: "globals \<Rightarrow> int list \<Rightarrow> xstate \<Rightarrow> xstate option" where
  "estimatescreens g [] st = Some st"
| "estimatescreens g (i # is) st =
     (case getst st i (crtc_arg g) of None \<Rightarrow> None | Some ts \<Rightarrow> estimatescreens g is st)"

definition printestimate :: "globals \<Rightarrow> int \<Rightarrow> int \<Rightarrow> xstate \<Rightarrow> xstate option" where
  "printestimate g first lst st = estimatescreens g [first..lst] st"

fun setscreens :: "globals \<Rightarrow> tempstate \<Rightarrow> int list \<Rightarrow> xstate \<Rightarrow> xstate option" where
  "setscreens g ts [] st = Some st"
| "setscreens g ts (i # is) st =
     (case setst st i (crtc_arg g) ts of None \<Rightarrow> None | Some st' \<Rightarrow> setscreens g ts is st')"

definition regularsct :: "globals \<Rightarrow> tempstate \<Rightarrow> int \<Rightarrow> int \<Rightarrow> xstate \<Rightarrow> xstate option" where
  "regularsct g ts first lst st =
     (let ts' = (if temp ts = 0 then ts\<lparr>temp := temp_day g\<rparr> else boundts ts)
      in setscreens g ts' [first..lst] st)"

fun deltascreens :: "globals \<Rightarrow> tempstate \<Rightarrow> int list \<Rightarrow> xstate \<Rightarrow> xstate option" where
  "deltascreens g ts [] st = Some st"
| "deltascreens g ts (i # is) st =
     (case getst st i (crtc_arg g) of
        None \<Rightarrow> None
      | Some dts \<Rightarrow>
          (let dts' = boundts \<lparr>temp = temp dts + temp ts,
                               brightness = brightness dts + brightness ts\<rparr>
           in case setst st i (crtc_arg g) dts' of
                None \<Rightarrow> None
              | Some st' \<Rightarrow> deltascreens g ts is st'))"

definition deltasct :: "globals \<Rightarrow> tempstate \<Rightarrow> int \<Rightarrow> int \<Rightarrow> xstate \<Rightarrow> xstate option" where
  "deltasct g ts first lst st =
     (if temp ts = MIN_DELTA \<or> brightness ts = real_of_int MIN_DELTA
      then Some (st\<lparr>fail := True\<rparr>)
      else deltascreens g ts [first..lst] st)"

text \<open>\<^verbatim>\<open>main\<close> from line 461 on: \<open>flags\<close> and \<open>ts0\<close> are what \<^verbatim>\<open>collectargs\<close> returned,
  \<open>g\<close> holds the globals as \<^verbatim>\<open>collectargs\<close> and \<^verbatim>\<open>checkenvironment\<close> left them, and the
  number of screens is that of the server. \<open>mainrest\<close> is lines 470--483, what follows
  the toggle.\<close>

definition mainrest :: "globals \<Rightarrow> 32 word \<Rightarrow> tempstate \<Rightarrow> int \<Rightarrow> xstate \<Rightarrow> xstate option" where
  "mainrest g flags ts0 nscreen st =
     (let ts = (if brightness ts0 = real_of_int MIN_DELTA \<and> \<not> (flags AND has_d \<noteq> 0)
                then ts0\<lparr>brightness := 1\<rparr> else ts0);
          firstscreen = (if screen_arg g \<ge> 0 then screen_arg g else 0);
          lastscreen = (if screen_arg g \<ge> 0 then screen_arg g else nscreen - 1)
      in if temp ts = MIN_DELTA \<and> \<not> (flags AND has_d \<noteq> 0)
         then printestimate g firstscreen lastscreen st
         else if \<not> (flags AND has_d \<noteq> 0)
         then regularsct g ts firstscreen lastscreen st
         else deltasct g ts firstscreen lastscreen st)"

definition mainsct :: "globals \<Rightarrow> 32 word \<Rightarrow> tempstate \<Rightarrow> xstate \<Rightarrow> xstate option" where
  "mainsct g flags ts0 st =
     (let nscreen = int (length (screens st)) in
      if flags AND has_h \<noteq> 0 then Some st
      else if \<not> fail st \<and> screen_arg g \<ge> nscreen then Some (st\<lparr>fail := True\<rparr>)
      else
        (case (if flags AND has_t \<noteq> 0 then toggledaynight g nscreen st else Some st) of
           None \<Rightarrow> None
         | Some st1 \<Rightarrow> mainrest g flags ts0 nscreen st1))"

text \<open>The value \<^verbatim>\<open>main\<close> returns.\<close>

definition exitcode :: "xstate \<Rightarrow> int" where
  "exitcode st = (if fail st then EXIT_FAILURE else EXIT_SUCCESS)"

subsection \<open>Notions used to state the results\<close>

text \<open>A ramp as the server hands it out: at least one point, and three arrays of
  \<open>gsize\<close> entries.\<close>

definition wfcrtc :: "crtcgamma \<Rightarrow> bool" where
  "wfcrtc c \<longleftrightarrow>
     1 \<le> gsize c \<and> length (gred c) = gsize c \<and> length (ggreen c) = gsize c \<and>
     length (gblue c) = gsize c"

text \<open>The last point of each channel of a ramp, and the sum of these over a list of
  ramps.\<close>

definition crtcpeak :: "crtcgamma \<Rightarrow> sgamma" where
  "crtcpeak c =
     \<lparr>red = real (unat (gred c ! (gsize c - 1))),
      green = real (unat (ggreen c ! (gsize c - 1))),
      blue = real (unat (gblue c ! (gsize c - 1)))\<rparr>"

definition peaksum :: "crtcgamma list \<Rightarrow> sgamma" where
  "peaksum cs =
     \<lparr>red = sum_list (map (\<lambda>c. red (crtcpeak c)) cs),
      green = sum_list (map (\<lambda>c. green (crtcpeak c)) cs),
      blue = sum_list (map (\<lambda>c. blue (crtcpeak c)) cs)\<rparr>"

text \<open>The selection rule in the words of the specification: the positions of the
  controllers operated on, for an index \<open>icrtc\<close> and \<open>n\<close> controllers.\<close>

definition selected_spec :: "int \<Rightarrow> nat \<Rightarrow> nat list" where
  "selected_spec icrtc n = (if 0 \<le> icrtc \<and> icrtc < int n then [nat icrtc] else [0..<n])"

text \<open>The ramp \<^verbatim>\<open>setst\<close> computes for a controller whose present ramp is \<open>c\<close>.\<close>

definition newramp :: "tempstate \<Rightarrow> crtcgamma \<Rightarrow> crtcgamma" where
  "newramp ts c = mkramp (tempgamma (temp ts)) (trimdouble (brightness ts) 0 1) (gsize c)"

text \<open>What one call of \<^verbatim>\<open>setst\<close> does to a screen with controllers \<open>crtcs\<close>: the
  controllers afterwards, and the calls of \<^verbatim>\<open>XRRSetCrtcGamma\<close> it makes.\<close>

definition writecrtcs :: "int \<Rightarrow> tempstate \<Rightarrow> crtcgamma list \<Rightarrow> crtcgamma list" where
  "writecrtcs icrtc ts crtcs =
     map (\<lambda>c. if c \<in> set (selected_spec icrtc (length crtcs))
              then newramp ts (crtcs ! c) else crtcs ! c) [0..<length crtcs]"

definition screenwrites ::
  "int \<Rightarrow> int \<Rightarrow> tempstate \<Rightarrow> crtcgamma list \<Rightarrow> (int \<times> nat \<times> crtcgamma) list" where
  "screenwrites iscreen icrtc ts crtcs =
     map (\<lambda>c. (iscreen, c, newramp ts (crtcs ! c))) (selected_spec icrtc (length crtcs))"

text \<open>What \<^verbatim>\<open>getst\<close> estimates for a screen with controllers \<open>crtcs\<close>, and when
  its reads stay inside the ramps.\<close>

definition readcrtcs :: "int \<Rightarrow> crtcgamma list \<Rightarrow> tempstate" where
  "readcrtcs icrtc crtcs =
     (let sel = selected_spec icrtc (length crtcs)
      in gammatemp (int (length sel)) (peaksum (map (\<lambda>c. crtcs ! c) sel)))"

definition readable :: "int \<Rightarrow> crtcgamma list \<Rightarrow> bool" where
  "readable icrtc crtcs \<longleftrightarrow>
     list_all (\<lambda>c. wfcrtc (crtcs ! c)) (selected_spec icrtc (length crtcs))"

text \<open>The loop that \<^verbatim>\<open>toggledaynight\<close> and \<^verbatim>\<open>deltasct\<close> share: every screen of the list
  is read, and written with the state \<open>f\<close> makes of what was read. \<open>rwresult\<close> is the
  state such a loop leaves when no read fails.\<close>

fun rwscreens :: "(tempstate \<Rightarrow> tempstate) \<Rightarrow> int \<Rightarrow> int list \<Rightarrow> xstate \<Rightarrow> xstate option" where
  "rwscreens f icrtc [] st = Some st"
| "rwscreens f icrtc (i # is) st =
     (case getst st i icrtc of
        None \<Rightarrow> None
      | Some ts \<Rightarrow>
          (case setst st i icrtc (f ts) of
             None \<Rightarrow> None
           | Some st' \<Rightarrow> rwscreens f icrtc is st'))"

definition rwresult :: "(tempstate \<Rightarrow> tempstate) \<Rightarrow> int \<Rightarrow> int list \<Rightarrow> xstate \<Rightarrow> xstate" where
  "rwresult f icrtc is st =
     st\<lparr>screens :=
          map (\<lambda>j. if int j \<in> set is
                   then writecrtcs icrtc (f (readcrtcs icrtc (screens st ! j))) (screens st ! j)
                   else screens st ! j) [0..<length (screens st)],
        setlog := setlog st @
          concat (map (\<lambda>i. screenwrites i icrtc (f (readcrtcs icrtc (screens st ! nat i)))
                             (screens st ! nat i)) is)\<rparr>"

text \<open>The values a C \<^verbatim>\<open>int\<close> can hold.\<close>

definition cint :: "int \<Rightarrow> bool" where
  "cint i \<longleftrightarrow> - (2 ^ 31) \<le> i \<and> i < 2 ^ 31"

text \<open>A screen whose controllers can be counted by an \<^verbatim>\<open>int\<close> and read by \<^verbatim>\<open>getst\<close>.\<close>

definition screenok :: "int \<Rightarrow> crtcgamma list \<Rightarrow> bool" where
  "screenok icrtc crtcs \<longleftrightarrow> cint (int (length crtcs)) \<and> readable icrtc crtcs"

text \<open>The last point of a channel with multiplier \<open>m\<close> of the ramp of \<open>sz\<close> points encoded
  at brightness 1, as the decoder reads it.\<close>

definition peakval :: "nat \<Rightarrow> real \<Rightarrow> real" where
  "peakval sz m = real (unat (rampval 1 sz m (sz - 1)))"

text \<open>The factor \<^verbatim>\<open>GAMMA_MULT * b * i / size\<close> of line 305 at brightness 1 and the last index.\<close>

definition rscale :: "nat \<Rightarrow> real" where
  "rscale sz = GAMMA_MULT * 1 * real (sz - 1) / real sz"

subsection \<open>Concrete inputs\<close>

text \<open>Ramps of one point, a blanked ramp of two points, the globals as the source
  initialises them, and a server with one screen and one controller showing the blanked
  ramp (what \<^verbatim>\<open>xsct 6500 0\<close> leaves behind).\<close>

abbreviation zc :: crtcgamma where
  "zc \<equiv> \<lparr>gsize = 1, gred = [0], ggreen = [0], gblue = [0]\<rparr>"

abbreviation oc :: crtcgamma where
  "oc \<equiv> \<lparr>gsize = 1, gred = [3], ggreen = [2], gblue = [1]\<rparr>"

abbreviation zc2 :: crtcgamma where
  "zc2 \<equiv> \<lparr>gsize = 2, gred = [0, 0], ggreen = [0, 0], gblue = [0, 0]\<rparr>"

abbreviation g0 :: globals where
  "g0 \<equiv> \<lparr>crtc_arg = - 1, screen_arg = - 1, temp_day = 6500, temp_night = 4500\<rparr>"

abbreviation st0 :: xstate where
  "st0 \<equiv> \<lparr>screens = [[zc2]], setlog = [], fail = False\<rparr>"

section \<open>Auxiliary facts\<close>

subsection \<open>Selection, ramps and the loops over controllers\<close>

lemma crtcsel_eq:
  assumes "0 \<le> n" "n < 2 ^ 31" "- (2 ^ 31) \<le> i" "i < 2 ^ 31"
  shows "crtcsel i n = (if 0 \<le> i \<and> i < n then (i, 1) else (0, n))"
proof -
  have n: "uint (word_of_int n :: 32 word) = n"
    using assms by (simp add: uint_word_of_int)
  have i: "uint (word_of_int i :: 32 word) = (if 0 \<le> i then i else i + 2 ^ 32)"
  proof (cases "0 \<le> i")
    case True
    then show ?thesis using assms by (simp add: uint_word_of_int)
  next
    case False
    then have "(i + 2 ^ 32) mod 2 ^ 32 = i + 2 ^ 32"
      using assms by (intro mod_pos_pos_trivial) auto
    then have "i mod 2 ^ 32 = i + 2 ^ 32" by simp
    then show ?thesis using False by (simp add: uint_word_of_int)
  qed
  show ?thesis
    unfolding crtcsel_def word_less_def n i using assms by auto
qed

lemma crtcloop_eq:
  assumes "0 \<le> n" "n < 2 ^ 31" "- (2 ^ 31) \<le> i" "i < 2 ^ 31"
  shows "crtcloop i n = (if 0 \<le> i \<and> i < n then [i] else [0..n - 1])"
  by (simp add: crtcloop_def crtcsel_eq [OF assms])

lemma map_nth_upto: "map (\<lambda>i. f (xs ! nat i)) [0..int (length xs) - 1] = map f xs"
proof (induction xs rule: rev_induct)
  case Nil
  then show ?case by simp
next
  case (snoc x xs)
  have "[0..int (length (xs @ [x])) - 1] = [0..int (length xs) - 1] @ [int (length xs)]"
    using upto_rec2 [of 0 "int (length xs)"] by simp
  moreover have "map (\<lambda>i. f ((xs @ [x]) ! nat i)) [0..int (length xs) - 1]
      = map (\<lambda>i. f (xs ! nat i)) [0..int (length xs) - 1]"
    by (rule map_cong) (auto simp: nth_append)
  ultimately show ?case using snoc by simp
qed

lemma ctrunc_nonneg: "0 \<le> x \<Longrightarrow> ctrunc x = \<lfloor>x\<rfloor>"
  by (simp add: ctrunc_def)

lemma rampval_uint:
  assumes "0 \<le> m" "m \<le> 1" "0 \<le> b" "b \<le> 1" "i < sz"
  shows "uint (rampval b sz m i) = \<lfloor>GAMMA_MULT * b * real i / real sz * m + 0.5\<rfloor>"
proof -
  let ?x = "GAMMA_MULT * b * real i / real sz * m"
  have q: "0 \<le> real i / real sz" "real i / real sz \<le> 1" using assms by auto
  have "0 \<le> b * (real i / real sz) * m"
    by (intro mult_nonneg_nonneg) (fact assms(3), fact q(1), fact assms(1))
  then have x0: "0 \<le> ?x" by (simp add: GAMMA_MULT_def)
  have bq: "b * (real i / real sz) \<le> 1"
    by (rule mult_le_one) (fact assms(4), fact q(1), fact q(2))
  have "b * (real i / real sz) * m \<le> 1"
    by (rule mult_le_one) (fact bq, fact assms(1), fact assms(2))
  then have x1: "?x \<le> 65535" by (simp add: GAMMA_MULT_def)
  have f0: "0 \<le> \<lfloor>?x + 0.5\<rfloor>" using x0 by simp
  have "?x + 0.5 < 65536" using x1 by simp
  then have f1: "\<lfloor>?x + 0.5\<rfloor> < 65536" by (simp add: floor_less_iff)
  have "uint (word_of_int \<lfloor>?x + 0.5\<rfloor> :: 16 word) = \<lfloor>?x + 0.5\<rfloor>"
    using f0 f1 by (simp add: uint_word_of_int)
  moreover have "ctrunc (?x + 0.5) = \<lfloor>?x + 0.5\<rfloor>" using x0 by (simp add: ctrunc_def)
  ultimately show ?thesis by (simp add: rampval_def to_ushort_def)
qed

lemma rampval_mono:
  assumes "0 \<le> m" "m \<le> 1" "0 \<le> b" "b \<le> 1" "i \<le> j" "j < sz"
  shows "rampval b sz m i \<le> rampval b sz m j"
proof -
  have ij: "real i / real sz \<le> real j / real sz" using assms by (simp add: divide_right_mono)
  have "b * (real i / real sz) \<le> b * (real j / real sz)"
    by (rule mult_left_mono) (fact ij, fact assms(3))
  then have "b * (real i / real sz) * m \<le> b * (real j / real sz) * m"
    by (rule mult_right_mono) (fact assms(1))
  then have le: "GAMMA_MULT * b * real i / real sz * m + 0.5
      \<le> GAMMA_MULT * b * real j / real sz * m + 0.5"
    by (simp add: GAMMA_MULT_def)
  have i: "i < sz" using assms by simp
  have "uint (rampval b sz m i) \<le> uint (rampval b sz m j)"
    unfolding rampval_uint [OF assms(1-4) i] rampval_uint [OF assms(1-4) assms(6)]
    by (rule floor_mono) (fact le)
  then show ?thesis by (simp add: word_le_def)
qed


lemma rampat_wf:
  "1 \<le> n \<Longrightarrow> length xs = n \<Longrightarrow> rampat xs (int n - 1) = Some (real (unat (xs ! (n - 1))))"
  by (simp add: rampat_def nat_diff_distrib')

lemma addpeak_wf:
  assumes "0 \<le> c" "c < int (length crtcs)" "wfcrtc (crtcs ! nat c)"
  shows "addpeak crtcs c sg =
    Some \<lparr>red = red sg + red (crtcpeak (crtcs ! nat c)),
          green = green sg + green (crtcpeak (crtcs ! nat c)),
          blue = blue sg + blue (crtcpeak (crtcs ! nat c))\<rparr>"
  using assms by (simp add: addpeak_def Let_def wfcrtc_def rampat_wf crtcpeak_def)

lemma sumpeaks_wf:
  assumes "\<forall>c\<in>set cs. 0 \<le> c \<and> c < int (length crtcs) \<and> wfcrtc (crtcs ! nat c)"
  shows "sumpeaks crtcs cs sg =
    Some \<lparr>red = red sg + red (peaksum (map (\<lambda>c. crtcs ! nat c) cs)),
          green = green sg + green (peaksum (map (\<lambda>c. crtcs ! nat c) cs)),
          blue = blue sg + blue (peaksum (map (\<lambda>c. crtcs ! nat c) cs))\<rparr>"
  using assms
proof (induction cs arbitrary: sg)
  case Nil
  then show ?case by (simp add: peaksum_def)
next
  case (Cons c cs)
  then show ?case by (simp add: addpeak_wf peaksum_def comp_def add.assoc)
qed

lemma setcrtcs_from:
  assumes "k \<le> length crtcs"
  shows "setcrtcs sg b s [int k..int (length crtcs) - 1] (crtcs, lg) =
    Some (take k crtcs @ map (\<lambda>c. mkramp sg b (gsize c)) (drop k crtcs),
          lg @ map (\<lambda>c. (s, c, mkramp sg b (gsize (crtcs ! c)))) [k..<length crtcs])"
  using assms
proof (induction "length crtcs - k" arbitrary: k crtcs lg)
  case 0
  then show ?case by simp
next
  case (Suc d)
  then have k: "k < length crtcs" by simp
  let ?f = "\<lambda>c. mkramp sg b (gsize c)"
  let ?cs = "crtcs[k := ?f (crtcs ! k)]"
  have up: "[int k..int (length crtcs) - 1] = int k # [int (Suc k)..int (length ?cs) - 1]"
    using k upto_rec1 [of "int k" "int (length crtcs) - 1"] by (simp add: add.commute)
  have d: "d = length ?cs - Suc k" using Suc.hyps(2) by simp
  have ih: "setcrtcs sg b s [int (Suc k)..int (length ?cs) - 1]
      (?cs, lg @ [(s, k, ?f (crtcs ! k))]) =
    Some (take (Suc k) ?cs @ map ?f (drop (Suc k) ?cs),
          (lg @ [(s, k, ?f (crtcs ! k))]) @
          map (\<lambda>c. (s, c, ?f (?cs ! c))) [Suc k..<length ?cs])"
    by (rule Suc.hyps(1) [OF d]) (use k in simp)
  have t: "take (Suc k) ?cs @ map ?f (drop (Suc k) ?cs) = take k crtcs @ map ?f (drop k crtcs)"
    using k by (simp add: take_Suc_conv_app_nth Cons_nth_drop_Suc [symmetric])
  have l: "map (\<lambda>c. (s, c, ?f (?cs ! c))) [Suc k..<length ?cs]
      = map (\<lambda>c. (s, c, ?f (crtcs ! c))) [Suc k..<length crtcs]"
    by (rule map_cong) auto
  have l2: "[k..<length crtcs] = k # [Suc k..<length crtcs]"
    using k by (simp add: upt_conv_Cons)
  have step: "setcrtc sg b s (int k) (crtcs, lg) = Some (?cs, lg @ [(s, k, ?f (crtcs ! k))])"
    using k by (simp add: setcrtc_def Let_def)
  have "setcrtcs sg b s [int k..int (length crtcs) - 1] (crtcs, lg) =
      Some (take (Suc k) ?cs @ map ?f (drop (Suc k) ?cs),
          (lg @ [(s, k, ?f (crtcs ! k))]) @
          map (\<lambda>c. (s, c, ?f (?cs ! c))) [Suc k..<length ?cs])"
    unfolding up by (simp only: setcrtcs.simps step option.simps ih)
  then show ?case unfolding t l by (simp add: l2)
qed

lemma setcrtcs_all:
  "setcrtcs sg b s [0..int (length crtcs) - 1] (crtcs, lg) =
    Some (map (\<lambda>c. mkramp sg b (gsize c)) crtcs,
          lg @ map (\<lambda>c. (s, c, mkramp sg b (gsize (crtcs ! c)))) [0..<length crtcs])"
  using setcrtcs_from [of 0 crtcs sg b s lg] by simp

lemma setcrtcs_one:
  "0 \<le> i \<Longrightarrow> i < int (length crtcs) \<Longrightarrow>
   setcrtcs sg b s [i] (crtcs, lg) =
    Some (crtcs[nat i := mkramp sg b (gsize (crtcs ! nat i))],
          lg @ [(s, nat i, mkramp sg b (gsize (crtcs ! nat i)))])"
  by (simp add: setcrtc_def Let_def)


subsection \<open>One read and one write of a screen\<close>

lemma selected_spec_bound: "c \<in> set (selected_spec icrtc n) \<Longrightarrow> c < n"
  by (auto simp: selected_spec_def split: if_splits)

lemma crtcloop_spec:
  assumes "cint (int n)" "cint icrtc"
  shows "crtcloop icrtc (int n) = map int (selected_spec icrtc n)"
proof -
  have "[0..int n - 1] = map int [0..<n]"
    by (induction n) (simp_all add: upto_rec2)
  then show ?thesis
    using assms crtcloop_eq [of "int n" icrtc] by (simp add: cint_def selected_spec_def)
qed

lemma crtcsel_spec:
  assumes "cint (int n)" "cint icrtc"
  shows "snd (crtcsel icrtc (int n)) = int (length (selected_spec icrtc n))"
  using assms crtcsel_eq [of "int n" icrtc] by (simp add: cint_def selected_spec_def)

lemma getscreengamma_eq:
  assumes "getscreen st s = Some crtcs" "cint (int (length crtcs))" "cint icrtc"
    and "readable icrtc crtcs"
  shows "getscreengamma st s icrtc =
    Some (int (length (selected_spec icrtc (length crtcs))),
          peaksum (map (\<lambda>c. crtcs ! c) (selected_spec icrtc (length crtcs))))"
proof -
  let ?sel = "selected_spec icrtc (length crtcs)"
  have "\<forall>c\<in>set (map int ?sel). 0 \<le> c \<and> c < int (length crtcs) \<and> wfcrtc (crtcs ! nat c)"
    using assms(4) selected_spec_bound [of _ icrtc "length crtcs"]
    by (auto simp: readable_def list_all_iff)
  from sumpeaks_wf [OF this, of "\<lparr>red = 0, green = 0, blue = 0\<rparr>"]
  have "sumpeaks crtcs (map int ?sel) \<lparr>red = 0, green = 0, blue = 0\<rparr>
      = Some (peaksum (map (\<lambda>c. crtcs ! c) ?sel))"
    by (simp add: comp_def)
  then show ?thesis
    using assms(1) by (simp add: getscreengamma_def Let_def crtcloop_spec [OF assms(2,3)]
        crtcsel_spec [OF assms(2,3)])
qed

lemma getst_eq:
  assumes "getscreen st s = Some crtcs" "cint (int (length crtcs))" "cint icrtc"
    and "readable icrtc crtcs"
  shows "getst st s icrtc = Some (readcrtcs icrtc crtcs)"
  by (simp add: getst_def getscreengamma_eq [OF assms] readcrtcs_def Let_def)

lemma writecrtcs_one:
  "0 \<le> i \<Longrightarrow> i < int (length crtcs) \<Longrightarrow>
   crtcs[nat i := newramp ts (crtcs ! nat i)] = writecrtcs i ts crtcs"
  by (rule nth_equalityI) (auto simp: writecrtcs_def selected_spec_def nth_list_update)

lemma writecrtcs_all:
  "\<not> (0 \<le> i \<and> i < int (length crtcs)) \<Longrightarrow> map (newramp ts) crtcs = writecrtcs i ts crtcs"
  by (rule nth_equalityI) (auto simp: writecrtcs_def selected_spec_def)

lemma setcrtcs_loop:
  assumes "cint (int (length crtcs))" "cint icrtc"
  shows "setcrtcs (tempgamma (temp ts)) (trimdouble (brightness ts) 0 1) s
      (crtcloop icrtc (int (length crtcs))) (crtcs, lg) =
    Some (writecrtcs icrtc ts crtcs, lg @ screenwrites s icrtc ts crtcs)"
proof (cases "0 \<le> icrtc \<and> icrtc < int (length crtcs)")
  case True
  then have l: "crtcloop icrtc (int (length crtcs)) = [icrtc]"
    using crtcloop_spec [OF assms] by (simp add: selected_spec_def)
  have w: "screenwrites s icrtc ts crtcs = [(s, nat icrtc, newramp ts (crtcs ! nat icrtc))]"
    using True by (simp add: screenwrites_def selected_spec_def)
  have wa: "writecrtcs icrtc ts crtcs = crtcs[nat icrtc := newramp ts (crtcs ! nat icrtc)]"
    using True writecrtcs_one [of icrtc crtcs ts] by simp
  show ?thesis
    unfolding l w wa newramp_def using True by (intro setcrtcs_one) simp_all
next
  case False
  then have l: "crtcloop icrtc (int (length crtcs)) = [0..int (length crtcs) - 1]"
    using assms crtcloop_eq [of "int (length crtcs)" icrtc] by (auto simp add: cint_def)
  have w: "screenwrites s icrtc ts crtcs
      = map (\<lambda>c. (s, c, newramp ts (crtcs ! c))) [0..<length crtcs]"
    using False by (auto simp add: screenwrites_def selected_spec_def)
  have wa: "writecrtcs icrtc ts crtcs = map (newramp ts) crtcs"
    using writecrtcs_all [OF False, of ts] by simp
  show ?thesis
    unfolding l w wa newramp_def by (rule setcrtcs_all)
qed

lemma setst_eq:
  assumes "getscreen st s = Some crtcs" "cint (int (length crtcs))" "cint icrtc"
  shows "setst st s icrtc ts =
    Some (st\<lparr>screens := (screens st)[nat s := writecrtcs icrtc ts crtcs],
             setlog := setlog st @ screenwrites s icrtc ts crtcs\<rparr>)"
  using assms(1) by (simp add: setst_def Let_def setcrtcs_loop [OF assms(2,3)])


subsection \<open>The loops over screens\<close>

lemma getscreen_Some:
  "0 \<le> i \<Longrightarrow> i < int (length (screens st)) \<Longrightarrow> getscreen st i = Some (screens st ! nat i)"
  by (simp add: getscreen_def)

lemma rwresult_Nil: "rwresult f icrtc [] st = st"
  by (simp add: rwresult_def map_nth)

lemma rwresult_Cons:
  assumes "0 \<le> i" "i < int (length (screens st))" "i \<notin> set is" "\<forall>k\<in>set is. 0 \<le> k"
    and "st1 = st\<lparr>screens := (screens st)[nat i :=
              writecrtcs icrtc (f (readcrtcs icrtc (screens st ! nat i))) (screens st ! nat i)],
          setlog := setlog st @
              screenwrites i icrtc (f (readcrtcs icrtc (screens st ! nat i))) (screens st ! nat i)\<rparr>"
  shows "rwresult f icrtc is st1 = rwresult f icrtc (i # is) st"
proof -
  let ?W = "writecrtcs icrtc (f (readcrtcs icrtc (screens st ! nat i))) (screens st ! nat i)"
  have scr: "screens st1 = (screens st)[nat i := ?W]"
    and lg: "setlog st1 = setlog st @
      screenwrites i icrtc (f (readcrtcs icrtc (screens st ! nat i))) (screens st ! nat i)"
    and fl: "fail st1 = fail st" and mo: "xstate.more st1 = xstate.more st"
    by (simp_all add: assms(5))
  have len: "length (screens st1) = length (screens st)" by (simp add: scr)
  have neq: "screens st1 ! nat k = screens st ! nat k" if "k \<in> set is" for k
  proof -
    have "0 \<le> k" "k \<noteq> i" using that assms by auto
    then have "nat k \<noteq> nat i" using assms(1) by (simp add: nat_eq_iff)
    then show ?thesis by (simp add: scr)
  qed
  have a: "(if int j \<in> set is
            then writecrtcs icrtc (f (readcrtcs icrtc (screens st1 ! j))) (screens st1 ! j)
            else screens st1 ! j)
      = (if int j \<in> set (i # is)
            then writecrtcs icrtc (f (readcrtcs icrtc (screens st ! j))) (screens st ! j)
            else screens st ! j)" if j: "j < length (screens st)" for j
  proof (cases "j = nat i")
    case True
    then have "int j = i" using assms(1) by simp
    then show ?thesis using j True assms(3) by (simp add: scr)
  next
    case False
    then have ji: "int j \<noteq> i" by auto
    show ?thesis
    proof (cases "int j \<in> set is")
      case True
      then show ?thesis using neq [of "int j"] by simp
    next
      case False
      then show ?thesis using ji \<open>j \<noteq> nat i\<close> by (simp add: scr)
    qed
  qed
  have "map (\<lambda>j. if int j \<in> set is
            then writecrtcs icrtc (f (readcrtcs icrtc (screens st1 ! j))) (screens st1 ! j)
            else screens st1 ! j) [0..<length (screens st1)]
      = map (\<lambda>j. if int j \<in> set (i # is)
            then writecrtcs icrtc (f (readcrtcs icrtc (screens st ! j))) (screens st ! j)
            else screens st ! j) [0..<length (screens st)]"
    unfolding len by (rule map_cong [OF refl], rule a) simp
  then have s: "screens (rwresult f icrtc is st1) = screens (rwresult f icrtc (i # is) st)"
    unfolding rwresult_def by simp
  have b: "map (\<lambda>k. screenwrites k icrtc (f (readcrtcs icrtc (screens st1 ! nat k)))
                 (screens st1 ! nat k)) is
      = map (\<lambda>k. screenwrites k icrtc (f (readcrtcs icrtc (screens st ! nat k)))
                 (screens st ! nat k)) is"
    by (rule map_cong) (simp_all add: neq)
  have l: "setlog (rwresult f icrtc is st1) = setlog (rwresult f icrtc (i # is) st)"
    unfolding rwresult_def by (simp add: b lg)
  show ?thesis
    by (rule xstate.equality) (simp_all add: s l, simp_all add: rwresult_def fl mo)
qed

lemma rwscreens_eq:
  assumes "cint icrtc" "distinct is"
    and "\<forall>i\<in>set is. 0 \<le> i \<and> i < int (length (screens st)) \<and> screenok icrtc (screens st ! nat i)"
  shows "rwscreens f icrtc is st = Some (rwresult f icrtc is st)"
  using assms(2,3)
proof (induction "is" arbitrary: st)
  case Nil
  then show ?case by (simp add: rwresult_Nil)
next
  case (Cons i "is")
  let ?crtcs = "screens st ! nat i"
  let ?ts = "readcrtcs icrtc ?crtcs"
  let ?st1 = "st\<lparr>screens := (screens st)[nat i := writecrtcs icrtc (f ?ts) ?crtcs],
          setlog := setlog st @ screenwrites i icrtc (f ?ts) ?crtcs\<rparr>"
  have i: "0 \<le> i" "i < int (length (screens st))" "screenok icrtc ?crtcs"
    using Cons.prems(2) by simp_all
  have gs: "getscreen st i = Some ?crtcs" using i by (simp add: getscreen_Some)
  have ci: "cint (int (length ?crtcs))" "readable icrtc ?crtcs"
    using i(3) by (simp_all add: screenok_def)
  have r: "getst st i icrtc = Some ?ts"
    by (rule getst_eq [OF gs ci(1) assms(1) ci(2)])
  have w: "setst st i icrtc (f ?ts) = Some ?st1"
    by (rule setst_eq [OF gs ci(1) assms(1)])
  have ni: "i \<notin> set is" "distinct is" using Cons.prems(1) by simp_all
  have pos: "\<forall>k\<in>set is. 0 \<le> k" using Cons.prems(2) by simp
  have "\<forall>k\<in>set is. 0 \<le> k \<and> k < int (length (screens ?st1)) \<and>
      screenok icrtc (screens ?st1 ! nat k)"
  proof
    fix k assume k: "k \<in> set is"
    then have "0 \<le> k" "k \<noteq> i" using ni(1) pos by auto
    then have "nat k \<noteq> nat i" using i(1) by (simp add: nat_eq_iff)
    then show "0 \<le> k \<and> k < int (length (screens ?st1)) \<and> screenok icrtc (screens ?st1 ! nat k)"
      using Cons.prems(2) k by simp
  qed
  from Cons.IH [OF ni(2) this]
  have "rwscreens f icrtc is ?st1 = Some (rwresult f icrtc (i # is) st)"
    by (simp only: rwresult_Cons [OF i(1,2) ni(1) pos refl])
  then show ?case by (simp add: r w)
qed

lemma togglescreens_rw: "togglescreens g is st = rwscreens (toggletemp g) (crtc_arg g) is st"
  by (induction "is" arbitrary: st) (simp_all split: option.splits)

lemma boundts_id: "boundts ts = ts"
  by (simp add: boundts_def Let_def)

lemma deltascreens_rw:
  "deltascreens g ts is st =
     rwscreens (\<lambda>dts. \<lparr>temp = temp dts + temp ts, brightness = brightness dts + brightness ts\<rparr>)
       (crtc_arg g) is st"
  by (induction "is" arbitrary: st) (simp_all add: boundts_id Let_def split: option.splits)


lemma screenwrites_fst: "w \<in> set (screenwrites k icrtc ts crtcs) \<Longrightarrow> fst w = k"
  by (auto simp: screenwrites_def)

lemma filter_screenwrites:
  "filter (\<lambda>w. fst w = i) (screenwrites k icrtc ts crtcs)
     = (if k = i then screenwrites k icrtc ts crtcs else [])"
  by (auto simp: screenwrites_def filter_empty_conv)

lemma filter_concat_screenwrites:
  assumes "distinct ks" "i \<in> set ks"
  shows "filter (\<lambda>w. fst w = i) (concat (map (\<lambda>k. screenwrites k icrtc (F k) (S k)) ks))
     = screenwrites i icrtc (F i) (S i)"
  using assms
proof (induction ks)
  case Nil
  then show ?case by simp
next
  case (Cons k ks)
  show ?case
  proof (cases "k = i")
    case True
    then have "i \<notin> set ks" using Cons.prems by simp
    then have "filter (\<lambda>w. fst w = i) (concat (map (\<lambda>k. screenwrites k icrtc (F k) (S k)) ks)) = []"
      by (auto simp: filter_empty_conv dest!: screenwrites_fst)
    then show ?thesis using True by (simp add: filter_screenwrites)
  next
    case False
    then show ?thesis using Cons by (simp add: filter_screenwrites)
  qed
qed

lemma toggledaynight_eq:
  assumes "cint (crtc_arg g)" "nscreen \<le> int (length (screens st))"
    and "\<forall>k\<in>{0..<nat nscreen}. screenok (crtc_arg g) (screens st ! k)"
  shows "toggledaynight g nscreen st =
    Some (rwresult (toggletemp g) (crtc_arg g) [0..nscreen - 1] st)"
proof -
  have "\<forall>i\<in>set [0..nscreen - 1]. 0 \<le> i \<and> i < int (length (screens st)) \<and>
      screenok (crtc_arg g) (screens st ! nat i)"
    using assms(2,3) by auto
  from rwscreens_eq [OF assms(1) _ this, of "toggletemp g"]
  show ?thesis by (simp add: toggledaynight_def togglescreens_rw)
qed

lemma getst_st0: "getst st0 0 (- 1) = Some \<lparr>temp = 0, brightness = 0\<rparr>"
proof -
  have "getst st0 0 (- 1) = Some (readcrtcs (- 1) [zc2])"
    by (rule getst_eq)
      (simp_all add: getscreen_def cint_def readable_def selected_spec_def wfcrtc_def)
  moreover have "readcrtcs (- 1) [zc2] = \<lparr>temp = 0, brightness = 0\<rparr>"
    by (simp add: readcrtcs_def selected_spec_def peaksum_def crtcpeak_def gammatemp_def
        MAX_c_def trimdouble_def ctrunc_def)
  ultimately show ?thesis by simp
qed

subsection \<open>The log of writes only grows\<close>

lemma setcrtcs_log:
  "setcrtcs sg b s cs acc = Some acc' \<Longrightarrow>
   \<exists>ws. snd acc' = snd acc @ ws \<and> (\<forall>w\<in>set ws. fst w = s)"
proof (induction cs arbitrary: acc)
  case Nil
  then show ?case by simp
next
  case (Cons c cs)
  from Cons.prems obtain acc1 where a: "setcrtc sg b s c acc = Some acc1"
    and b: "setcrtcs sg b s cs acc1 = Some acc'"
    by (auto split: option.splits)
  from a have "\<exists>ws. snd acc1 = snd acc @ ws \<and> (\<forall>w\<in>set ws. fst w = s)"
    by (auto simp: setcrtc_def Let_def split: prod.splits if_splits)
  moreover from Cons.IH [OF b]
  have "\<exists>ws. snd acc' = snd acc1 @ ws \<and> (\<forall>w\<in>set ws. fst w = s)" .
  ultimately show ?case by fastforce
qed

lemma setst_log:
  assumes "setst st s icrtc ts = Some st'"
  shows "\<exists>ws. setlog st' = setlog st @ ws \<and> (\<forall>w\<in>set ws. fst w = s)"
proof -
  from assms obtain crtcs crtcs' lg where
    "setcrtcs (tempgamma (temp ts)) (trimdouble (brightness ts) 0 1) s
       (crtcloop icrtc (int (length crtcs))) (crtcs, setlog st) = Some (crtcs', lg)"
    and "setlog st' = lg"
    by (auto simp: setst_def Let_def split: option.splits)
  then show ?thesis using setcrtcs_log by fastforce
qed

lemma setscreens_log:
  "setscreens g ts is st = Some st' \<Longrightarrow>
   \<exists>ws. setlog st' = setlog st @ ws \<and> (\<forall>w\<in>set ws. fst w \<in> set is)"
proof (induction "is" arbitrary: st)
  case Nil
  then show ?case by simp
next
  case (Cons i "is")
  from Cons.prems obtain st1 where a: "setst st i (crtc_arg g) ts = Some st1"
    and b: "setscreens g ts is st1 = Some st'"
    by (auto split: option.splits)
  from setst_log [OF a] Cons.IH [OF b] show ?case by fastforce
qed

lemma rwscreens_log:
  "rwscreens f icrtc is st = Some st' \<Longrightarrow>
   \<exists>ws. setlog st' = setlog st @ ws \<and> (\<forall>w\<in>set ws. fst w \<in> set is)"
proof (induction "is" arbitrary: st)
  case Nil
  then show ?case by simp
next
  case (Cons i "is")
  from Cons.prems obtain ts st1 where a: "setst st i icrtc (f ts) = Some st1"
    and b: "rwscreens f icrtc is st1 = Some st'"
    by (auto split: option.splits)
  from setst_log [OF a] Cons.IH [OF b] show ?case by fastforce
qed

lemma estimatescreens_id: "estimatescreens g is st = Some st' \<Longrightarrow> st' = st"
  by (induction "is" arbitrary: st) (auto split: option.splits)

lemma mainrest_log:
  assumes "mainrest g flags ts nscreen st = Some st'" and "0 \<le> screen_arg g"
  shows "\<exists>ws. setlog st' = setlog st @ ws \<and> (\<forall>w\<in>set ws. fst w = screen_arg g)"
proof -
  let ?s = "screen_arg g"
  consider (e) "printestimate g ?s ?s st = Some st'"
    | (r) ts' where "regularsct g ts' ?s ?s st = Some st'"
    | (d) ts' where "deltasct g ts' ?s ?s st = Some st'"
    using assms by (auto simp: mainrest_def Let_def split: if_splits)
  then show ?thesis
  proof cases
    case e
    then have "st' = st"
      using estimatescreens_id [of g "[?s..?s]" st st'] by (simp add: printestimate_def)
    then show ?thesis by simp
  next
    case r
    then show ?thesis using setscreens_log [of g _ "[?s]" st st']
      by (auto simp: regularsct_def Let_def split: if_splits)
  next
    case d
    then show ?thesis
      using rwscreens_log [of _ "crtc_arg g" "[?s]" st st']
      by (auto simp: deltasct_def deltascreens_rw split: if_splits)
  qed
qed


subsection \<open>The state a loop over screens leaves\<close>

lemma rwresult_screen:
  assumes "k < length (screens st)" "int k \<in> set is"
  shows "screens (rwresult f icrtc is st) ! k
    = writecrtcs icrtc (f (readcrtcs icrtc (screens st ! k))) (screens st ! k)"
  unfolding rwresult_def using assms by simp

lemma rwresult_filter:
  assumes "distinct is" "i \<in> set is"
  shows "filter (\<lambda>w. fst w = i) (drop (length (setlog st)) (setlog (rwresult f icrtc is st)))
    = screenwrites i icrtc (f (readcrtcs icrtc (screens st ! nat i))) (screens st ! nat i)"
  unfolding rwresult_def
  using filter_concat_screenwrites [OF assms, of icrtc
      "\<lambda>k. f (readcrtcs icrtc (screens st ! nat k))" "\<lambda>k. screens st ! nat k"]
  by simp

lemma rwresult_keeps:
  "fail (rwresult f icrtc is st) = fail st"
  "length (screens (rwresult f icrtc is st)) = length (screens st)"
  by (simp_all add: rwresult_def)

lemma toggle_st0:
  "toggledaynight g0 1 st0 = Some \<lparr>screens = [[zc2]], setlog = [(0, 0, zc2)], fail = False\<rparr>"
proof -
  have "toggledaynight g0 1 st0 = Some (rwresult (toggletemp g0) (crtc_arg g0) [0..1 - 1] st0)"
    by (rule toggledaynight_eq)
      (simp_all add: cint_def screenok_def readable_def selected_spec_def wfcrtc_def)
  moreover have "readcrtcs (- 1) [zc2] = \<lparr>temp = 0, brightness = 0\<rparr>"
    by (simp add: readcrtcs_def selected_spec_def peaksum_def crtcpeak_def gammatemp_def
        MAX_c_def trimdouble_def ctrunc_def)
  moreover have "newramp \<lparr>temp = 6500, brightness = 0\<rparr> zc2 = zc2"
    by (simp add: newramp_def mkramp_def rampval_def to_ushort_def ctrunc_def trimdouble_def
        upt_rec)
  ultimately show ?thesis
    by (simp add: rwresult_def toggletemp_def TOGGLE_DELTA_def writecrtcs_def screenwrites_def
        selected_spec_def)
qed

subsection \<open>Bounds on the exponential and the logarithm\<close>

lemma exp_lower_sum:
  fixes x :: real
  assumes "0 \<le> x"
  shows "(\<Sum>m<n. x ^ m / fact m) \<le> exp x"
proof -
  obtain t where "exp x = (\<Sum>m<n. x ^ m / fact m) + exp t / fact n * x ^ n"
    using Maclaurin_exp_le [of x n] by blast
  moreover have "0 \<le> exp t / fact n * x ^ n" using assms by simp
  ultimately show ?thesis by linarith
qed

lemma exp_upper_sum:
  fixes x :: real
  assumes "0 \<le> x" "x \<le> 1"
  shows "exp x \<le> (\<Sum>m<n. x ^ m / fact m) + 3 * x ^ n / fact n"
proof -
  obtain t where t: "\<bar>t\<bar> \<le> \<bar>x\<bar>"
    and e: "exp x = (\<Sum>m<n. x ^ m / fact m) + exp t / fact n * x ^ n"
    using Maclaurin_exp_le [of x n] by blast
  have "t \<le> 1" using t assms by linarith
  then have "exp t \<le> exp 1" by simp
  then have "exp t \<le> 3" using exp_le by linarith
  then have "exp t * (x ^ n / fact n) \<le> 3 * (x ^ n / fact n)"
    using assms by (intro mult_right_mono) simp_all
  then show ?thesis unfolding e by (simp add: field_simps)
qed


lemma exp_half_bounds:
  "164872127 / 10 ^ 8 \<le> exp (1 / 2 :: real)" "exp (1 / 2 :: real) \<le> 164872128 / 10 ^ 8"
proof -
  show "164872127 / 10 ^ 8 \<le> exp (1 / 2 :: real)"
    using exp_lower_sum [of "1 / 2" 12]
    by (simp add: lessThan_nat_numeral lessThan_Suc fact_numeral power_divide)
  show "exp (1 / 2 :: real) \<le> 164872128 / 10 ^ 8"
    using exp_upper_sum [of "1 / 2" 12]
    by (simp add: lessThan_nat_numeral lessThan_Suc fact_numeral power_divide)
qed

lemma exp_halves:
  "(164872127 / 10 ^ 8) ^ k \<le> exp (real k / 2)" "exp (real k / 2) \<le> (164872128 / 10 ^ 8) ^ k"
proof -
  have e: "exp (real k / 2) = exp (1 / 2) ^ k"
    using exp_of_nat_mult [of k "1 / 2 :: real"] by simp
  show "(164872127 / 10 ^ 8) ^ k \<le> exp (real k / 2)"
    unfolding e using exp_half_bounds(1) by (intro power_mono) simp_all
  show "exp (real k / 2) \<le> (164872128 / 10 ^ 8) ^ k"
    unfolding e using exp_half_bounds(2) by (intro power_mono) simp_all
qed

lemma ln_lower: "0 < X \<Longrightarrow> exp y \<le> X \<Longrightarrow> y \<le> ln X" for X :: real
  by (simp add: ln_ge_iff)

lemma ln_upper: "0 < X \<Longrightarrow> X \<le> exp y \<Longrightarrow> ln X \<le> y" for X :: real
  by (metis exp_le_cancel_iff exp_ln)

lemma ln_300: "11 / 2 \<le> ln (300 :: real)" "ln (300 :: real) \<le> 6"
proof -
  have "exp (real 11 / 2) \<le> (164872128 / 10 ^ 8) ^ 11"
    by (rule exp_halves(2))
  also have "\<dots> \<le> (300 :: real)" by (simp add: power_divide)
  finally show "11 / 2 \<le> ln (300 :: real)"
    by (intro ln_lower) simp_all
  have "(300 :: real) \<le> (164872127 / 10 ^ 8) ^ 12" by (simp add: power_divide)
  also have "\<dots> \<le> exp (real 12 / 2)"
    by (rule exp_halves(1))
  finally show "ln (300 :: real) \<le> 6"
    by (intro ln_upper) simp_all
qed

lemma ln_2000: "15 / 2 \<le> ln (2000 :: real)" "ln (2000 :: real) \<le> 8"
proof -
  have "exp (real 15 / 2) \<le> (164872128 / 10 ^ 8) ^ 15"
    by (rule exp_halves(2))
  also have "\<dots> \<le> (2000 :: real)" by (simp add: power_divide)
  finally show "15 / 2 \<le> ln (2000 :: real)"
    by (intro ln_lower) simp_all
  have "(2000 :: real) \<le> (164872127 / 10 ^ 8) ^ 16" by (simp add: power_divide)
  also have "\<dots> \<le> exp (real 16 / 2)"
    by (rule exp_halves(1))
  finally show "ln (2000 :: real) \<le> 8"
    by (intro ln_upper) simp_all
qed

lemma ln_3800: "8 \<le> ln (3800 :: real)" "ln (3800 :: real) \<le> 17 / 2"
proof -
  have "exp (real 16 / 2) \<le> (164872128 / 10 ^ 8) ^ 16"
    by (rule exp_halves(2))
  also have "\<dots> \<le> (3800 :: real)" by (simp add: power_divide)
  finally show "8 \<le> ln (3800 :: real)"
    by (intro ln_lower) simp_all
  have "(3800 :: real) \<le> (164872127 / 10 ^ 8) ^ 17" by (simp add: power_divide)
  also have "\<dots> \<le> exp (real 17 / 2)"
    by (rule exp_halves(1))
  finally show "ln (3800 :: real) \<le> 17 / 2"
    by (intro ln_upper) simp_all
qed

lemma ln_3200: "8 \<le> ln (3200 :: real)" "ln (3200 :: real) \<le> 17 / 2"
proof -
  have "exp (real 16 / 2) \<le> (164872128 / 10 ^ 8) ^ 16"
    by (rule exp_halves(2))
  also have "\<dots> \<le> (3200 :: real)" by (simp add: power_divide)
  finally show "8 \<le> ln (3200 :: real)"
    by (intro ln_lower) simp_all
  have "(3200 :: real) \<le> (164872127 / 10 ^ 8) ^ 17" by (simp add: power_divide)
  also have "\<dots> \<le> exp (real 17 / 2)"
    by (rule exp_halves(1))
  finally show "ln (3200 :: real) \<le> 17 / 2"
    by (intro ln_upper) simp_all
qed

lemma ln_9200: "9 \<le> ln (9200 :: real)" "ln (9200 :: real) \<le> 19 / 2"
proof -
  have "exp (real 18 / 2) \<le> (164872128 / 10 ^ 8) ^ 18"
    by (rule exp_halves(2))
  also have "\<dots> \<le> (9200 :: real)" by (simp add: power_divide)
  finally show "9 \<le> ln (9200 :: real)"
    by (intro ln_lower) simp_all
  have "(9200 :: real) \<le> (164872127 / 10 ^ 8) ^ 19" by (simp add: power_divide)
  also have "\<dots> \<le> exp (real 19 / 2)"
    by (rule exp_halves(1))
  finally show "ln (9200 :: real) \<le> 19 / 2"
    by (intro ln_upper) simp_all
qed

lemma ln_700_upper: "ln (700 :: real) \<le> 6551088 / 10 ^ 6"
proof -
  have a: "(164872127 / 10 ^ 8) ^ 13 \<le> exp (real 13 / 2)"
    by (rule exp_halves(1))
  have b: "1 + 51088 / 10 ^ 6 + (51088 / 10 ^ 6)\<^sup>2 / 2 + (51088 / 10 ^ 6) ^ 3 / 6
      \<le> exp (51088 / 10 ^ 6 :: real)"
    using exp_lower_sum [of "51088 / 10 ^ 6" 4]
    by (simp add: lessThan_nat_numeral lessThan_Suc fact_numeral power_divide)
  have "(700 :: real)
      \<le> (164872127 / 10 ^ 8) ^ 13 *
        (1 + 51088 / 10 ^ 6 + (51088 / 10 ^ 6)\<^sup>2 / 2 + (51088 / 10 ^ 6) ^ 3 / 6)"
    by (simp add: power_divide)
  also have "\<dots> \<le> exp (real 13 / 2) * exp (51088 / 10 ^ 6)"
    using a b by (intro mult_mono) simp_all
  also have "\<dots> = exp (6551088 / 10 ^ 6)"
    by (simp add: exp_add [symmetric])
  finally show ?thesis by (intro ln_upper) simp_all
qed

lemma ln_700_lower: "655 / 100 \<le> ln (700 :: real)"
proof -
  have a: "exp (real 13 / 2) \<le> (164872128 / 10 ^ 8) ^ 13"
    by (rule exp_halves(2))
  have b: "exp (1 / 20 :: real) \<le> 1 + 1 / 20 + (1 / 20)\<^sup>2 / 2 + 3 * (1 / 20) ^ 3 / 6"
    using exp_upper_sum [of "1 / 20" 3]
    by (simp add: lessThan_nat_numeral lessThan_Suc fact_numeral power_divide)
  have "exp (655 / 100 :: real) = exp (real 13 / 2) * exp (1 / 20)"
    by (simp add: exp_add [symmetric])
  also have "\<dots>
      \<le> (164872128 / 10 ^ 8) ^ 13 * (1 + 1 / 20 + (1 / 20)\<^sup>2 / 2 + 3 * (1 / 20) ^ 3 / 6)"
    using a b by (intro mult_mono) simp_all
  also have "\<dots> \<le> (700 :: real)"
    by (simp add: power_divide)
  finally show ?thesis by (intro ln_lower) simp_all
qed


subsection \<open>The forward model at given temperatures\<close>

lemma trimdouble_01: "trimdouble x 0 1 = max 0 (min x 1)"
  by (simp add: trimdouble_def max_def min_def)

lemma tempgamma_cool:
  "TEMP_NORM \<le> t \<Longrightarrow> tempgamma t =
     \<lparr>red = trimdouble (GAMMA_K0RB + GAMMA_K1RB * ln (real_of_int t - 5800)) 0 1,
      green = trimdouble (GAMMA_K0GB + GAMMA_K1GB * ln (real_of_int t - 5800)) 0 1,
      blue = 1\<rparr>"
  by (simp add: tempgamma_def Let_def TEMP_NORM_def MINTEMP_def)

lemma tempgamma_warm:
  "MINTEMP < t \<Longrightarrow> t < TEMP_NORM \<Longrightarrow> tempgamma t =
     \<lparr>red = 1,
      green = trimdouble (GAMMA_K0GR + GAMMA_K1GR * ln (real_of_int t - 700)) 0 1,
      blue = trimdouble (GAMMA_K0BR + GAMMA_K1BR * ln (real_of_int t - 700)) 0 1\<rparr>"
  by (simp add: tempgamma_def Let_def TEMP_NORM_def MINTEMP_def)

lemma raw_6500:
  "1 - 1 / 10 ^ 6 \<le> GAMMA_K0RB + GAMMA_K1RB * ln 700"
  "1 - 1 / 10 ^ 6 \<le> GAMMA_K0GB + GAMMA_K1GB * ln 700"
  "GAMMA_K0RB + GAMMA_K1RB * ln 700 \<le> 1 + 2 / 10 ^ 4"
  "GAMMA_K0GB + GAMMA_K1GB * ln 700 \<le> 1 + 2 / 10 ^ 4"
  using ln_700_upper ln_700_lower
  by (simp_all add: GAMMA_K0RB_def GAMMA_K1RB_def GAMMA_K0GB_def GAMMA_K1GB_def)

lemma readcrtcs_zc2: "readcrtcs (- 1) [zc2] = \<lparr>temp = 0, brightness = 0\<rparr>"
  by (simp add: readcrtcs_def selected_spec_def peaksum_def crtcpeak_def gammatemp_def
      MAX_c_def trimdouble_def ctrunc_def)

lemma to_ushort_eq:
  assumes "0 \<le> n" "n < 65536" "real_of_int n \<le> x" "x < real_of_int n + 1"
  shows "to_ushort x = word_of_int n"
proof -
  have "\<lfloor>x\<rfloor> = n" using assms(3,4) by (intro floor_unique) simp_all
  moreover have "0 \<le> x" using assms(1,3) by linarith
  ultimately show ?thesis by (simp add: to_ushort_def ctrunc_def)
qed

lemma rampval_near_one:
  assumes "1 - 1 / 10 ^ 6 \<le> m" "m \<le> 1"
  shows "rampval (1 / 2) 2 m (Suc 0) = 16384"
proof -
  have "to_ushort (GAMMA_MULT * (1 / 2) * real (Suc 0) / real 2 * m + 0.5) = word_of_int 16384"
    using assms by (intro to_ushort_eq) (simp_all add: GAMMA_MULT_def)
  then show ?thesis by (simp add: rampval_def)
qed

lemma newramp_6500_half:
  "newramp \<lparr>temp = 6500, brightness = 1 / 2\<rparr> zc2
     = \<lparr>gsize = 2, gred = [0, 16384], ggreen = [0, 16384], gblue = [0, 16384]\<rparr>"
proof -
  let ?r = "trimdouble (GAMMA_K0RB + GAMMA_K1RB * ln 700) 0 1"
  let ?g = "trimdouble (GAMMA_K0GB + GAMMA_K1GB * ln 700) 0 1"
  have tg: "tempgamma 6500 = \<lparr>red = ?r, green = ?g, blue = 1\<rparr>"
    using tempgamma_cool [of 6500] by (simp add: TEMP_NORM_def)
  have r: "1 - 1 / 10 ^ 6 \<le> ?r" "?r \<le> 1" and g: "1 - 1 / 10 ^ 6 \<le> ?g" "?g \<le> 1"
    using raw_6500(1,2) by (simp_all add: trimdouble_01)
  have z: "rampval (1 / 2) 2 m 0 = 0" for m
    by (simp add: rampval_def to_ushort_def ctrunc_def)
  have b: "rampval (1 / 2) 2 1 (Suc 0) = 16384"
    by (rule rampval_near_one) simp_all
  have u: "[0..<2] = [0, Suc 0]" by (simp add: upt_rec)
  have tb: "trimdouble (1 / 2) 0 1 = 1 / 2" by (simp add: trimdouble_def)
  have "newramp \<lparr>temp = 6500, brightness = 1 / 2\<rparr> zc2
      = mkramp \<lparr>red = ?r, green = ?g, blue = 1\<rparr> (1 / 2) 2"
    by (simp add: newramp_def tg tb)
  also have "\<dots> = \<lparr>gsize = 2, gred = [0, 16384], ggreen = [0, 16384], gblue = [0, 16384]\<rparr>"
    unfolding mkramp_def u
    by (simp add: z b rampval_near_one [OF r] rampval_near_one [OF g])
  finally show ?thesis .
qed

subsection \<open>The peaks of an encoded ramp\<close>

lemma rscale_bounds:
  assumes "2 \<le> sz"
  shows "65535 / 2 \<le> rscale sz" "rscale sz \<le> 65535"
proof -
  obtain n where n: "sz = n + 2" using assms by (metis add.commute le_Suc_ex)
  have r: "rscale sz = 65535 * (real n + 1) / (real n + 2)"
    by (simp add: rscale_def GAMMA_MULT_def n algebra_simps)
  show "65535 / 2 \<le> rscale sz" unfolding r by (simp add: field_simps)
  show "rscale sz \<le> 65535" unfolding r by (simp add: field_simps)
qed

lemma peakval_floor:
  assumes "1 \<le> sz" "0 \<le> m" "m \<le> 1"
  shows "peakval sz m = of_int \<lfloor>rscale sz * m + 1 / 2\<rfloor>"
proof -
  have "uint (rampval 1 sz m (sz - 1)) = \<lfloor>GAMMA_MULT * 1 * real (sz - 1) / real sz * m + 0.5\<rfloor>"
    using assms by (intro rampval_uint) simp_all
  then have "int (unat (rampval 1 sz m (sz - 1))) = \<lfloor>rscale sz * m + 1 / 2\<rfloor>"
    by (simp add: rscale_def)
  then have "real_of_int (int (unat (rampval 1 sz m (sz - 1))))
      = of_int \<lfloor>rscale sz * m + 1 / 2\<rfloor>"
    by (rule arg_cong)
  then show ?thesis by (simp add: peakval_def)
qed

lemma peakval_bounds:
  assumes "2 \<le> sz" "0 \<le> m" "m \<le> 1"
  shows "\<bar>peakval sz m - rscale sz * m\<bar> \<le> 1 / 2"
    and "0 \<le> peakval sz m"
proof -
  define x where "x = rscale sz * m + 1 / 2"
  have p: "peakval sz m = of_int \<lfloor>x\<rfloor>"
    unfolding x_def using assms by (intro peakval_floor) simp_all
  have "of_int \<lfloor>x\<rfloor> \<le> x" "x < of_int \<lfloor>x\<rfloor> + 1" by linarith+
  then show "\<bar>peakval sz m - rscale sz * m\<bar> \<le> 1 / 2" unfolding p x_def by linarith
  show "0 \<le> peakval sz m" unfolding peakval_def by (rule of_nat_0_le_iff)
qed

lemma peakval_one:
  assumes "2 \<le> sz"
  shows "32767 \<le> peakval sz 1"
proof -
  have "\<bar>peakval sz 1 - rscale sz\<bar> \<le> 1 / 2"
    using peakval_bounds(1) [OF assms, of 1] by simp
  then show ?thesis using rscale_bounds(1) [OF assms] by linarith
qed

lemma peakval_zero: "1 \<le> sz \<Longrightarrow> peakval sz 0 = 0"
  by (simp add: peakval_floor)

lemma peakval_le_one:
  assumes "2 \<le> sz" "0 \<le> m" "m \<le> 1"
  shows "peakval sz m \<le> peakval sz 1"
proof -
  define c where "c = rscale sz"
  have c: "0 \<le> c" unfolding c_def using rscale_bounds(1) [OF assms(1)] by linarith
  have "c * m \<le> c * 1" using assms(3) c by (intro mult_left_mono)
  then have "\<lfloor>c * m + 1 / 2\<rfloor> \<le> \<lfloor>c * 1 + 1 / 2\<rfloor>" by (intro floor_mono) simp
  then show ?thesis using assms by (simp add: peakval_floor c_def)
qed

lemma peakval_pos:
  assumes "2 \<le> sz" "1 / 65535 \<le> m" "m \<le> 1"
  shows "1 \<le> peakval sz m"
proof -
  define c where "c = rscale sz"
  have "65535 / 2 * (1 / 65535) \<le> c * m"
    unfolding c_def using rscale_bounds(1) [OF assms(1)] assms(2) by (intro mult_mono) simp_all
  then have "1 \<le> c * m + 1 / 2" by simp
  then have "1 \<le> \<lfloor>c * m + 1 / 2\<rfloor>" by (simp add: le_floor_iff)
  then have "1 \<le> real_of_int \<lfloor>c * m + 1 / 2\<rfloor>" by linarith
  moreover have "0 \<le> m" using assms(2) by (rule order_trans [rotated]) simp
  ultimately show ?thesis using assms by (simp add: peakval_floor c_def)
qed

lemma peakval_less_one:
  assumes "2 \<le> sz" "0 \<le> m" "m \<le> 1 - 1 / 32767"
  shows "peakval sz m < peakval sz 1"
proof -
  define c where "c = rscale sz"
  have c: "65535 / 2 \<le> c" unfolding c_def by (rule rscale_bounds(1) [OF assms(1)])
  have m1: "m \<le> 1" using assms(3) by simp
  have "c * m \<le> c * (1 - 1 / 32767)" using assms(3) c by (intro mult_left_mono) simp_all
  also have "\<dots> = c - c / 32767" by (simp add: algebra_simps)
  also have "\<dots> \<le> c - 65535 / 2 / 32767" using c by (simp add: divide_right_mono)
  finally have a: "c * m \<le> c - 65535 / 2 / 32767" .
  have "peakval sz m \<le> c * m + 1 / 2"
    unfolding c_def using peakval_bounds(1) [OF assms(1,2) m1] by linarith
  moreover have "c * 1 - 1 / 2 \<le> peakval sz 1"
    unfolding c_def using peakval_bounds(1) [OF assms(1), of 1] by linarith
  ultimately show ?thesis using a by simp
qed

lemma peakval_ratio:
  assumes "2 \<le> sz" "0 \<le> m" "m \<le> 1"
  shows "\<bar>peakval sz m / peakval sz 1 - m\<bar> \<le> 1 / 32767"
proof -
  define c where "c = rscale sz"
  define p where "p = peakval sz m"
  define q where "q = peakval sz 1"
  have p1: "32767 \<le> q" unfolding q_def by (rule peakval_one [OF assms(1)])
  have a: "\<bar>p - c * m\<bar> \<le> 1 / 2"
    unfolding p_def c_def by (rule peakval_bounds(1) [OF assms])
  have b: "\<bar>q - c\<bar> \<le> 1 / 2"
    unfolding q_def c_def using peakval_bounds(1) [OF assms(1), of 1] by simp
  have "\<bar>m * (q - c)\<bar> = m * \<bar>q - c\<bar>"
    using assms(2) by (simp add: abs_mult)
  also have "\<dots> \<le> 1 * (1 / 2)" using b assms(2,3) by (intro mult_mono) simp_all
  finally have b': "\<bar>m * (q - c)\<bar> \<le> 1 / 2" by simp
  have "p - m * q = (p - c * m) - m * (q - c)"
    by (simp add: algebra_simps)
  then have d: "\<bar>p - m * q\<bar> \<le> 1" using a b' by linarith
  have "p / q - m = (p - m * q) / q"
    using p1 by (simp add: field_simps)
  then have "\<bar>p / q - m\<bar> = \<bar>p - m * q\<bar> / q"
    using p1 by simp
  also have "\<dots> \<le> 1 / 32767"
    using d p1 by (intro frac_le) simp_all
  finally show ?thesis unfolding p_def q_def .
qed


subsection \<open>The inverse model on the peaks of an encoded ramp\<close>

lemma exp_near:
  fixes X E h :: real
  assumes "0 < X" "\<bar>E - ln X\<bar> \<le> h" "h \<le> 1"
  shows "\<bar>exp E - X\<bar> \<le> X * (h + h\<^sup>2)"
proof -
  define e where "e = E - ln X"
  have h0: "0 \<le> h" using assms(2) by linarith
  have eq: "exp E = X * exp e"
    using assms(1) by (simp add: e_def exp_diff)
  have e: "- h \<le> e" "e \<le> h" using assms(2) by (simp_all add: e_def abs_le_iff)
  have "exp e \<le> exp h" using e(2) by simp
  also have "\<dots> \<le> 1 + h + h\<^sup>2" using h0 assms(3) by (rule exp_bound)
  finally have up: "exp e \<le> 1 + h + h\<^sup>2" .
  have "1 + (- h) \<le> exp (- h)" by (rule exp_ge_add_one_self)
  also have "\<dots> \<le> exp e" using e(1) by simp
  finally have lo: "1 - h \<le> exp e" by simp
  have "0 \<le> h\<^sup>2" by simp
  then have "\<bar>exp e - 1\<bar> \<le> h + h\<^sup>2" using up lo by linarith
  then have "X * \<bar>exp e - 1\<bar> \<le> X * (h + h\<^sup>2)"
    using assms(1) by (intro mult_left_mono) simp_all
  moreover have "\<bar>exp E - X\<bar> = X * \<bar>exp e - 1\<bar>"
  proof -
    have "exp E - X = X * (exp e - 1)" by (simp add: eq algebra_simps)
    then show ?thesis using assms(1) by (simp add: abs_mult)
  qed
  ultimately show ?thesis by simp
qed

lemma round_near:
  assumes "\<bar>T - real_of_int t\<bar> \<le> 49" "0 \<le> T"
  shows "\<bar>ctrunc (T + 0.5) - t\<bar> \<le> 50"
proof -
  have c: "ctrunc (T + 0.5) = \<lfloor>T + 1 / 2\<rfloor>" using assms(2) by (simp add: ctrunc_def)
  have "real_of_int \<lfloor>T + 1 / 2\<rfloor> \<le> T + 1 / 2" "T + 1 / 2 < real_of_int \<lfloor>T + 1 / 2\<rfloor> + 1"
    by linarith+
  then have "\<bar>real_of_int \<lfloor>T + 1 / 2\<rfloor> - real_of_int t\<bar> < 50" using assms(1) by linarith
  then have "\<bar>real_of_int (\<lfloor>T + 1 / 2\<rfloor> - t)\<bar> < 50" by simp
  then have "\<bar>\<lfloor>T + 1 / 2\<rfloor> - t\<bar> < 50" by linarith
  then show ?thesis unfolding c by simp
qed

lemma inverse_core:
  fixes X K0 K1 u B :: real
  assumes X: "0 < X" "X \<le> 9200" and K1: "19 / 100 \<le> \<bar>K1\<bar>"
    and u: "\<bar>u - (K0 + K1 * ln X)\<bar> \<le> 5 / 10 ^ 4"
    and t: "real_of_int t = X + B" "0 \<le> B"
  shows "\<bar>ctrunc (exp ((u - K0) / K1) + B + 0.5) - t\<bar> \<le> 50"
proof -
  define N where "N = u - (K0 + K1 * ln X)"
  have k: "K1 \<noteq> 0" using K1 by auto
  have "(u - K0) / K1 = N / K1 + ln X"
    using k by (simp add: N_def field_simps)
  then have "\<bar>(u - K0) / K1 - ln X\<bar> = \<bar>N\<bar> / \<bar>K1\<bar>" by simp
  also have "\<dots> \<le> (5 / 10 ^ 4) / (19 / 100)"
    using u K1 unfolding N_def by (intro frac_le) simp_all
  also have "\<dots> \<le> 1 / 200" by simp
  finally have "\<bar>(u - K0) / K1 - ln X\<bar> \<le> 1 / 200" .
  from exp_near [OF X(1) this]
  have "\<bar>exp ((u - K0) / K1) - X\<bar> \<le> X * (1 / 200 + (1 / 200)\<^sup>2)" by simp
  also have "\<dots> \<le> 9200 * (1 / 200 + (1 / 200)\<^sup>2)"
    using X(2) by (intro mult_right_mono) simp_all
  also have "\<dots> \<le> 49" by (simp add: power2_eq_square)
  finally have "\<bar>(exp ((u - K0) / K1) + B) - real_of_int t\<bar> \<le> 49"
    unfolding t(1) by simp
  moreover have "0 \<le> exp ((u - K0) / K1) + B" using t(2) by (simp add: add_nonneg_nonneg)
  ultimately have "\<bar>ctrunc ((exp ((u - K0) / K1) + B) + 0.5) - t\<bar> \<le> 50"
    by (rule round_near)
  then show ?thesis by (simp add: add.assoc)
qed


lemma crtcpeak_mkramp:
  assumes "1 \<le> sz"
  shows "crtcpeak (mkramp sg 1 sz) =
    \<lparr>red = peakval sz (red sg), green = peakval sz (green sg), blue = peakval sz (blue sg)\<rparr>"
  using assms by (simp add: crtcpeak_def mkramp_def peakval_def)

lemma gammatemp_cool:
  assumes "0 < q" "pr \<le> q" "pg \<le> q"
  shows "temp (gammatemp 1 \<lparr>red = pr, green = pg, blue = q\<rparr>) =
    ctrunc (exp ((pg / q + pr / q - (GAMMA_K0GB + GAMMA_K0RB)) / (GAMMA_K1GB + GAMMA_K1RB))
      + 5800 + 0.5)"
proof -
  have b0: "MAX_c q (MAX_c pr pg) = q" using assms by (simp add: MAX_c_def)
  have "pr / q \<le> 1" using assms by simp
  then have d: "\<not> 1 - pr / q < 0" by simp
  have q: "q / q = 1" using assms(1) by simp
  show ?thesis
    using assms(1) d
    by (simp add: gammatemp_def Let_def b0 q TEMP_NORM_def MINTEMP_def algebra_simps)
qed

lemma gammatemp_warm:
  assumes "0 < q" "0 < pb" "pb < q" "pg \<le> q"
  shows "temp (gammatemp 1 \<lparr>red = q, green = pg, blue = pb\<rparr>) =
    ctrunc (exp ((pg / q + pb / q - (GAMMA_K0GR + GAMMA_K0BR)) / (GAMMA_K1GR + GAMMA_K1BR))
      + 700 + 0.5)"
proof -
  have b0: "MAX_c pb (MAX_c q pg) = q" using assms by (simp add: MAX_c_def)
  have "pb / q < 1" using assms by simp
  then have d: "pb / q - 1 < 0" by simp
  have p: "0 < pb / q" using assms by simp
  have q: "q / q = 1" using assms(1) by simp
  show ?thesis
    using assms(1) d p
    by (simp add: gammatemp_def Let_def b0 q TEMP_NORM_def MINTEMP_def algebra_simps)
qed

lemma gammatemp_green:
  assumes "0 < q" "0 < pg" "pg \<le> q"
  shows "temp (gammatemp 1 \<lparr>red = q, green = pg, blue = 0\<rparr>) =
    ctrunc (exp ((pg / q - GAMMA_K0GR) / GAMMA_K1GR) + 700 + 0.5)"
proof -
  have b0: "MAX_c 0 (MAX_c q pg) = q" using assms by (simp add: MAX_c_def)
  have p: "0 < pg / q" using assms by simp
  have q: "q / q = 1" using assms(1) by simp
  show ?thesis
    using assms(1) p
    by (simp add: gammatemp_def Let_def b0 q TEMP_NORM_def MINTEMP_def algebra_simps)
qed


lemma trimdouble_range: "0 \<le> trimdouble x 0 1" "trimdouble x 0 1 \<le> 1"
  by (simp_all add: trimdouble_01)

lemma trimdouble_id: "0 \<le> x \<Longrightarrow> x \<le> 1 \<Longrightarrow> trimdouble x 0 1 = x"
  by (simp add: trimdouble_01)

lemma roundtrip_cool:
  fixes t :: int
  defines "L \<equiv> ln (real_of_int t - 5800)"
  assumes sz: "2 \<le> sz" and t: "TEMP_NORM \<le> t" "t \<le> 15000"
    and r: "\<bar>trimdouble (GAMMA_K0RB + GAMMA_K1RB * L) 0 1 - (GAMMA_K0RB + GAMMA_K1RB * L)\<bar>
              \<le> 2 / 10 ^ 4"
    and g: "\<bar>trimdouble (GAMMA_K0GB + GAMMA_K1GB * L) 0 1 - (GAMMA_K0GB + GAMMA_K1GB * L)\<bar>
              \<le> 2 / 10 ^ 4"
  shows "\<bar>temp (gammatemp 1 (crtcpeak (mkramp (tempgamma t) 1 sz))) - t\<bar> \<le> 50"
proof -
  define rr where "rr = GAMMA_K0RB + GAMMA_K1RB * L"
  define rg where "rg = GAMMA_K0GB + GAMMA_K1GB * L"
  define mr where "mr = trimdouble rr 0 1"
  define mg where "mg = trimdouble rg 0 1"
  define q where "q = peakval sz 1"
  define pr where "pr = peakval sz mr"
  define pg where "pg = peakval sz mg"
  have m: "0 \<le> mr" "mr \<le> 1" "0 \<le> mg" "mg \<le> 1"
    by (simp_all add: mr_def mg_def trimdouble_range)
  have tg: "tempgamma t = \<lparr>red = mr, green = mg, blue = 1\<rparr>"
    using tempgamma_cool [OF t(1)] by (simp add: mr_def mg_def rr_def rg_def L_def)
  have pk: "crtcpeak (mkramp (tempgamma t) 1 sz) = \<lparr>red = pr, green = pg, blue = q\<rparr>"
    using sz by (simp add: crtcpeak_mkramp tg pr_def pg_def q_def)
  have q: "32767 \<le> q" unfolding q_def by (rule peakval_one [OF sz])
  have le: "pr \<le> q" "pg \<le> q"
    unfolding pr_def pg_def q_def using m by (simp_all add: peakval_le_one [OF sz])
  have ra: "\<bar>pr / q - mr\<bar> \<le> 1 / 32767" "\<bar>pg / q - mg\<bar> \<le> 1 / 32767"
    unfolding pr_def pg_def q_def
    by (rule peakval_ratio [OF sz m(1,2)], rule peakval_ratio [OF sz m(3,4)])
  have cl: "\<bar>mr - rr\<bar> \<le> 1 / 5000" "\<bar>mg - rg\<bar> \<le> 1 / 5000"
    using r g by (simp_all add: mr_def mg_def rr_def rg_def)
  have sum: "(GAMMA_K0GB + GAMMA_K0RB) + (GAMMA_K1GB + GAMMA_K1RB) * L = rr + rg"
    by (simp add: rr_def rg_def algebra_simps)
  have "\<bar>(pg / q + pr / q) - (rr + rg)\<bar> \<le> 1 / 2000"
    using ra cl by linarith
  then have u: "\<bar>(pg / q + pr / q) - ((GAMMA_K0GB + GAMMA_K0RB) + (GAMMA_K1GB + GAMMA_K1RB) * L)\<bar>
      \<le> 5 / 10 ^ 4"
    unfolding sum by simp
  have k: "19 / 100 \<le> \<bar>GAMMA_K1GB + GAMMA_K1RB\<bar>"
    by (simp add: GAMMA_K1GB_def GAMMA_K1RB_def)
  have X: "0 < real_of_int t - 5800" "real_of_int t - 5800 \<le> 9200"
    using t by (simp_all add: TEMP_NORM_def)
  have "\<bar>ctrunc (exp ((pg / q + pr / q - (GAMMA_K0GB + GAMMA_K0RB)) / (GAMMA_K1GB + GAMMA_K1RB))
      + 5800 + 0.5) - t\<bar> \<le> 50"
    by (rule inverse_core [OF X k u [unfolded L_def]]) simp_all
  moreover have "temp (gammatemp 1 (crtcpeak (mkramp (tempgamma t) 1 sz))) =
    ctrunc (exp ((pg / q + pr / q - (GAMMA_K0GB + GAMMA_K0RB)) / (GAMMA_K1GB + GAMMA_K1RB))
      + 5800 + 0.5)"
    unfolding pk using q le by (intro gammatemp_cool) simp_all
  ultimately show ?thesis by simp
qed

lemma roundtrip_warm:
  fixes t :: int
  defines "L \<equiv> ln (real_of_int t - 700)"
  assumes sz: "2 \<le> sz" and t: "MINTEMP < t" "t < TEMP_NORM"
    and g: "1 / 65535 \<le> GAMMA_K0GR + GAMMA_K1GR * L" "GAMMA_K0GR + GAMMA_K1GR * L \<le> 1"
    and b: "1 / 65535 \<le> GAMMA_K0BR + GAMMA_K1BR * L"
      "GAMMA_K0BR + GAMMA_K1BR * L \<le> 1 - 1 / 32767"
  shows "\<bar>temp (gammatemp 1 (crtcpeak (mkramp (tempgamma t) 1 sz))) - t\<bar> \<le> 50"
proof -
  define mg where "mg = GAMMA_K0GR + GAMMA_K1GR * L"
  define mb where "mb = GAMMA_K0BR + GAMMA_K1BR * L"
  define q where "q = peakval sz 1"
  define pg where "pg = peakval sz mg"
  define pb where "pb = peakval sz mb"
  have m: "0 \<le> mg" "mg \<le> 1" "0 \<le> mb" "mb \<le> 1"
    using g b by (simp_all add: mg_def mb_def)
  have tg: "tempgamma t = \<lparr>red = 1, green = mg, blue = mb\<rparr>"
    using tempgamma_warm [OF t] m
    by (simp add: mg_def mb_def L_def trimdouble_id)
  have pk: "crtcpeak (mkramp (tempgamma t) 1 sz) = \<lparr>red = q, green = pg, blue = pb\<rparr>"
    using sz by (simp add: crtcpeak_mkramp tg pb_def pg_def q_def)
  have q: "32767 \<le> q" unfolding q_def by (rule peakval_one [OF sz])
  have le: "pg \<le> q"
    unfolding pg_def q_def using m by (simp add: peakval_le_one [OF sz])
  have bp: "1 \<le> pb" "pb < q"
    unfolding pb_def q_def using b m
    by (simp_all add: peakval_pos [OF sz] peakval_less_one [OF sz] mb_def)
  have ra: "\<bar>pg / q - mg\<bar> \<le> 1 / 32767" "\<bar>pb / q - mb\<bar> \<le> 1 / 32767"
    unfolding pb_def pg_def q_def
    by (rule peakval_ratio [OF sz m(1,2)], rule peakval_ratio [OF sz m(3,4)])
  have sum: "(GAMMA_K0GR + GAMMA_K0BR) + (GAMMA_K1GR + GAMMA_K1BR) * L = mg + mb"
    by (simp add: mg_def mb_def algebra_simps)
  have "\<bar>(pg / q + pb / q) - (mg + mb)\<bar> \<le> 1 / 2000"
    using ra by linarith
  then have u: "\<bar>(pg / q + pb / q) - ((GAMMA_K0GR + GAMMA_K0BR) + (GAMMA_K1GR + GAMMA_K1BR) * L)\<bar>
      \<le> 5 / 10 ^ 4"
    unfolding sum by simp
  have k: "19 / 100 \<le> \<bar>GAMMA_K1GR + GAMMA_K1BR\<bar>"
    by (simp add: GAMMA_K1GR_def GAMMA_K1BR_def)
  have X: "0 < real_of_int t - 700" "real_of_int t - 700 \<le> 9200"
    using t by (simp_all add: TEMP_NORM_def MINTEMP_def)
  have "\<bar>ctrunc (exp ((pg / q + pb / q - (GAMMA_K0GR + GAMMA_K0BR)) / (GAMMA_K1GR + GAMMA_K1BR))
      + 700 + 0.5) - t\<bar> \<le> 50"
    by (rule inverse_core [OF X k u [unfolded L_def]]) simp_all
  moreover have "temp (gammatemp 1 (crtcpeak (mkramp (tempgamma t) 1 sz))) =
    ctrunc (exp ((pg / q + pb / q - (GAMMA_K0GR + GAMMA_K0BR)) / (GAMMA_K1GR + GAMMA_K1BR))
      + 700 + 0.5)"
    unfolding pk using q le bp by (intro gammatemp_warm) simp_all
  ultimately show ?thesis by simp
qed

lemma roundtrip_green:
  fixes t :: int
  defines "L \<equiv> ln (real_of_int t - 700)"
  assumes sz: "2 \<le> sz" and t: "MINTEMP < t" "t < TEMP_NORM"
    and g: "1 / 65535 \<le> GAMMA_K0GR + GAMMA_K1GR * L" "GAMMA_K0GR + GAMMA_K1GR * L \<le> 1"
    and b: "GAMMA_K0BR + GAMMA_K1BR * L \<le> 0"
  shows "\<bar>temp (gammatemp 1 (crtcpeak (mkramp (tempgamma t) 1 sz))) - t\<bar> \<le> 50"
proof -
  define mg where "mg = GAMMA_K0GR + GAMMA_K1GR * L"
  define q where "q = peakval sz 1"
  define pg where "pg = peakval sz mg"
  have m: "0 \<le> mg" "mg \<le> 1"
    using g by (simp_all add: mg_def)
  have tb: "trimdouble (GAMMA_K0BR + GAMMA_K1BR * L) 0 1 = 0"
    using b by (simp add: trimdouble_01)
  have tg: "tempgamma t = \<lparr>red = 1, green = mg, blue = 0\<rparr>"
    using tempgamma_warm [OF t] m tb
    by (simp add: mg_def L_def trimdouble_id)
  have pk: "crtcpeak (mkramp (tempgamma t) 1 sz) = \<lparr>red = q, green = pg, blue = 0\<rparr>"
    using sz by (simp add: crtcpeak_mkramp tg pg_def q_def peakval_zero)
  have q: "32767 \<le> q" unfolding q_def by (rule peakval_one [OF sz])
  have le: "pg \<le> q" "1 \<le> pg"
    unfolding pg_def q_def using m g
    by (simp_all add: peakval_le_one [OF sz] peakval_pos [OF sz] mg_def)
  have ra: "\<bar>pg / q - mg\<bar> \<le> 1 / 32767"
    unfolding pg_def q_def by (rule peakval_ratio [OF sz m])
  have "\<bar>pg / q - mg\<bar> \<le> 1 / 2000"
    using ra by linarith
  then have u: "\<bar>pg / q - (GAMMA_K0GR + GAMMA_K1GR * L)\<bar> \<le> 5 / 10 ^ 4"
    unfolding mg_def by simp
  have k: "19 / 100 \<le> \<bar>GAMMA_K1GR\<bar>"
    by (simp add: GAMMA_K1GR_def)
  have X: "0 < real_of_int t - 700" "real_of_int t - 700 \<le> 9200"
    using t by (simp_all add: TEMP_NORM_def MINTEMP_def)
  have "\<bar>ctrunc (exp ((pg / q - GAMMA_K0GR) / GAMMA_K1GR) + 700 + 0.5) - t\<bar> \<le> 50"
    by (rule inverse_core [OF X k u [unfolded L_def]]) simp_all
  moreover have "temp (gammatemp 1 (crtcpeak (mkramp (tempgamma t) 1 sz))) =
    ctrunc (exp ((pg / q - GAMMA_K0GR) / GAMMA_K1GR) + 700 + 0.5)"
    unfolding pk using q le by (intro gammatemp_green) simp_all
  ultimately show ?thesis by simp
qed


subsection \<open>Encoding and decoding at the six temperatures\<close>

lemma roundtrip_1000:
  assumes "2 \<le> sz"
  shows "\<bar>temp (gammatemp 1 (crtcpeak (mkramp (tempgamma 1000) 1 sz))) - 1000\<bar> \<le> 50"
proof (rule roundtrip_green [OF assms])
  show "MINTEMP < 1000" "1000 < TEMP_NORM" by (simp_all add: MINTEMP_def TEMP_NORM_def)
  show "1 / 65535 \<le> GAMMA_K0GR + GAMMA_K1GR * ln (real_of_int 1000 - 700)"
    using ln_300(1) by (simp add: GAMMA_K0GR_def GAMMA_K1GR_def)
  show "GAMMA_K0GR + GAMMA_K1GR * ln (real_of_int 1000 - 700) \<le> 1"
    using ln_300(2) by (simp add: GAMMA_K0GR_def GAMMA_K1GR_def)
  show "GAMMA_K0BR + GAMMA_K1BR * ln (real_of_int 1000 - 700) \<le> 0"
    using ln_300(2) by (simp add: GAMMA_K0BR_def GAMMA_K1BR_def)
qed

lemma roundtrip_2700:
  assumes "2 \<le> sz"
  shows "\<bar>temp (gammatemp 1 (crtcpeak (mkramp (tempgamma 2700) 1 sz))) - 2700\<bar> \<le> 50"
proof (rule roundtrip_warm [OF assms])
  show "MINTEMP < 2700" "2700 < TEMP_NORM" by (simp_all add: MINTEMP_def TEMP_NORM_def)
  show "1 / 65535 \<le> GAMMA_K0GR + GAMMA_K1GR * ln (real_of_int 2700 - 700)"
    using ln_2000(1) by (simp add: GAMMA_K0GR_def GAMMA_K1GR_def)
  show "GAMMA_K0GR + GAMMA_K1GR * ln (real_of_int 2700 - 700) \<le> 1"
    using ln_2000(2) by (simp add: GAMMA_K0GR_def GAMMA_K1GR_def)
  show "1 / 65535 \<le> GAMMA_K0BR + GAMMA_K1BR * ln (real_of_int 2700 - 700)"
    using ln_2000(1) by (simp add: GAMMA_K0BR_def GAMMA_K1BR_def)
  show "GAMMA_K0BR + GAMMA_K1BR * ln (real_of_int 2700 - 700) \<le> 1 - 1 / 32767"
    using ln_2000(2) by (simp add: GAMMA_K0BR_def GAMMA_K1BR_def)
qed

lemma roundtrip_4500:
  assumes "2 \<le> sz"
  shows "\<bar>temp (gammatemp 1 (crtcpeak (mkramp (tempgamma 4500) 1 sz))) - 4500\<bar> \<le> 50"
proof (rule roundtrip_warm [OF assms])
  show "MINTEMP < 4500" "4500 < TEMP_NORM" by (simp_all add: MINTEMP_def TEMP_NORM_def)
  show "1 / 65535 \<le> GAMMA_K0GR + GAMMA_K1GR * ln (real_of_int 4500 - 700)"
    using ln_3800(1) by (simp add: GAMMA_K0GR_def GAMMA_K1GR_def)
  show "GAMMA_K0GR + GAMMA_K1GR * ln (real_of_int 4500 - 700) \<le> 1"
    using ln_3800(2) by (simp add: GAMMA_K0GR_def GAMMA_K1GR_def)
  show "1 / 65535 \<le> GAMMA_K0BR + GAMMA_K1BR * ln (real_of_int 4500 - 700)"
    using ln_3800(1) by (simp add: GAMMA_K0BR_def GAMMA_K1BR_def)
  show "GAMMA_K0BR + GAMMA_K1BR * ln (real_of_int 4500 - 700) \<le> 1 - 1 / 32767"
    using ln_3800(2) by (simp add: GAMMA_K0BR_def GAMMA_K1BR_def)
qed

lemma trimdouble_close:
  "1 - 1 / 10 ^ 6 \<le> x \<Longrightarrow> x \<le> 1 + 2 / 10 ^ 4 \<Longrightarrow> \<bar>trimdouble x 0 1 - x\<bar> \<le> 2 / 10 ^ 4"
  by (simp add: trimdouble_01 max_def min_def abs_if)

lemma trimdouble_exact:
  "0 \<le> x \<Longrightarrow> x \<le> 1 \<Longrightarrow> \<bar>trimdouble x 0 1 - x\<bar> \<le> 2 / 10 ^ 4"
  by (simp add: trimdouble_id)

lemma roundtrip_6500:
  assumes "2 \<le> sz"
  shows "\<bar>temp (gammatemp 1 (crtcpeak (mkramp (tempgamma 6500) 1 sz))) - 6500\<bar> \<le> 50"
proof (rule roundtrip_cool [OF assms])
  show "TEMP_NORM \<le> 6500" "(6500::int) \<le> 15000" by (simp_all add: TEMP_NORM_def)
  show "\<bar>trimdouble (GAMMA_K0RB + GAMMA_K1RB * ln (real_of_int 6500 - 5800)) 0 1
      - (GAMMA_K0RB + GAMMA_K1RB * ln (real_of_int 6500 - 5800))\<bar> \<le> 2 / 10 ^ 4"
    using raw_6500(1,3) by (intro trimdouble_close) simp_all
  show "\<bar>trimdouble (GAMMA_K0GB + GAMMA_K1GB * ln (real_of_int 6500 - 5800)) 0 1
      - (GAMMA_K0GB + GAMMA_K1GB * ln (real_of_int 6500 - 5800))\<bar> \<le> 2 / 10 ^ 4"
    using raw_6500(2,4) by (intro trimdouble_close) simp_all
qed

lemma roundtrip_9000:
  assumes "2 \<le> sz"
  shows "\<bar>temp (gammatemp 1 (crtcpeak (mkramp (tempgamma 9000) 1 sz))) - 9000\<bar> \<le> 50"
proof (rule roundtrip_cool [OF assms])
  show "TEMP_NORM \<le> 9000" "(9000::int) \<le> 15000" by (simp_all add: TEMP_NORM_def)
  show "\<bar>trimdouble (GAMMA_K0RB + GAMMA_K1RB * ln (real_of_int 9000 - 5800)) 0 1
      - (GAMMA_K0RB + GAMMA_K1RB * ln (real_of_int 9000 - 5800))\<bar> \<le> 2 / 10 ^ 4"
    using ln_3200 by (intro trimdouble_exact) (simp_all add: GAMMA_K0RB_def GAMMA_K1RB_def)
  show "\<bar>trimdouble (GAMMA_K0GB + GAMMA_K1GB * ln (real_of_int 9000 - 5800)) 0 1
      - (GAMMA_K0GB + GAMMA_K1GB * ln (real_of_int 9000 - 5800))\<bar> \<le> 2 / 10 ^ 4"
    using ln_3200 by (intro trimdouble_exact) (simp_all add: GAMMA_K0GB_def GAMMA_K1GB_def)
qed

lemma roundtrip_15000:
  assumes "2 \<le> sz"
  shows "\<bar>temp (gammatemp 1 (crtcpeak (mkramp (tempgamma 15000) 1 sz))) - 15000\<bar> \<le> 50"
proof (rule roundtrip_cool [OF assms])
  show "TEMP_NORM \<le> 15000" "(15000::int) \<le> 15000" by (simp_all add: TEMP_NORM_def)
  show "\<bar>trimdouble (GAMMA_K0RB + GAMMA_K1RB * ln (real_of_int 15000 - 5800)) 0 1
      - (GAMMA_K0RB + GAMMA_K1RB * ln (real_of_int 15000 - 5800))\<bar> \<le> 2 / 10 ^ 4"
    using ln_9200 by (intro trimdouble_exact) (simp_all add: GAMMA_K0RB_def GAMMA_K1RB_def)
  show "\<bar>trimdouble (GAMMA_K0GB + GAMMA_K1GB * ln (real_of_int 15000 - 5800)) 0 1
      - (GAMMA_K0GB + GAMMA_K1GB * ln (real_of_int 15000 - 5800))\<bar> \<le> 2 / 10 ^ 4"
    using ln_9200 by (intro trimdouble_exact) (simp_all add: GAMMA_K0GB_def GAMMA_K1GB_def)
qed

lemma roundtrip_pure:
  assumes "t \<in> {1000, 2700, 4500, 6500, 9000, 15000}" "2 \<le> sz"
  shows "\<bar>temp (gammatemp 1 (crtcpeak (mkramp (tempgamma t) 1 sz))) - t\<bar> \<le> 50"
  using assms roundtrip_1000 roundtrip_2700 roundtrip_4500 roundtrip_6500 roundtrip_9000
    roundtrip_15000
  by auto


lemma wfcrtc_mkramp: "1 \<le> sz \<Longrightarrow> wfcrtc (mkramp sg b sz)"
  by (simp add: wfcrtc_def mkramp_def)

lemma peaksum_single: "peaksum [c] = crtcpeak c"
  by (simp add: peaksum_def)

lemma setst_single:
  "setst \<lparr>screens = [[c]], setlog = [], fail = False\<rparr> 0 (- 1) ts =
     Some \<lparr>screens = [[newramp ts c]], setlog = [(0, 0, newramp ts c)], fail = False\<rparr>"
proof -
  have "setst \<lparr>screens = [[c]], setlog = [], fail = False\<rparr> 0 (- 1) ts =
    Some (\<lparr>screens = [[c]], setlog = [], fail = False\<rparr>
      \<lparr>screens := (screens \<lparr>screens = [[c]], setlog = [], fail = False\<rparr>)
          [nat 0 := writecrtcs (- 1) ts [c]],
       setlog := setlog \<lparr>screens = [[c]], setlog = [], fail = False\<rparr> @
          screenwrites 0 (- 1) ts [c]\<rparr>)"
    by (rule setst_eq) (simp_all add: getscreen_def cint_def)
  then show ?thesis
    by (simp add: writecrtcs_def screenwrites_def selected_spec_def)
qed

lemma getst_single:
  assumes "wfcrtc c"
  shows "getst \<lparr>screens = [[c]], setlog = lg, fail = f\<rparr> 0 (- 1) = Some (gammatemp 1 (crtcpeak c))"
proof -
  have "getst \<lparr>screens = [[c]], setlog = lg, fail = f\<rparr> 0 (- 1) = Some (readcrtcs (- 1) [c])"
    using assms
    by (intro getst_eq) (simp_all add: getscreen_def cint_def readable_def selected_spec_def)
  then show ?thesis
    by (simp add: readcrtcs_def selected_spec_def peaksum_single)
qed

lemma rampval_first: "rampval b sz m 0 = 0"
  by (simp add: rampval_def to_ushort_def ctrunc_def)

section \<open>The curve model\<close>

text \<open>
  C2. For every temperature \<open>t\<close> with \<open>MINTEMP < t < TEMP_NORM\<close> the forward model gives
  red = 1, and for every \<open>t \<ge> TEMP_NORM\<close> it gives blue = 1.
\<close>

theorem tempgamma_red_blue:
  "(MINTEMP < t \<and> t < TEMP_NORM \<longrightarrow> red (tempgamma t) = 1) \<and>
   (TEMP_NORM \<le> t \<longrightarrow> blue (tempgamma t) = 1)"
  by (simp add: tempgamma_def Let_def)

theorem tempgamma_red_blue_witness:
  "MINTEMP < 4500 \<and> 4500 < TEMP_NORM \<and> red (tempgamma 4500) = 1 \<and>
   TEMP_NORM \<le> 9000 \<and> blue (tempgamma 9000) = 1"
  using tempgamma_red_blue [of 4500] tempgamma_red_blue [of 9000]
  by (simp add: MINTEMP_def TEMP_NORM_def)

text \<open>
  C9. At exactly \<open>TEMP_NORM\<close> (6500) the forward model, with the coefficients
  \<open>GAMMA_K0RB\<close>, \<open>GAMMA_K1RB\<close>, \<open>GAMMA_K0GB\<close> and \<open>GAMMA_K1GB\<close> of the source, gives red
  and green within \<open>10\<^sup>-\<^sup>6\<close> of 1 and blue equal to 1.
\<close>

theorem tempgamma_norm:
  "\<bar>red (tempgamma TEMP_NORM) - 1\<bar> \<le> 1 / 10 ^ 6 \<and>
   \<bar>green (tempgamma TEMP_NORM) - 1\<bar> \<le> 1 / 10 ^ 6 \<and>
   blue (tempgamma TEMP_NORM) = 1"
proof -
  have "tempgamma TEMP_NORM =
     \<lparr>red = trimdouble (GAMMA_K0RB + GAMMA_K1RB * ln 700) 0 1,
      green = trimdouble (GAMMA_K0GB + GAMMA_K1GB * ln 700) 0 1,
      blue = 1\<rparr>"
    using tempgamma_cool [of TEMP_NORM] by (simp add: TEMP_NORM_def)
  then show ?thesis
    using raw_6500(1,2) by (simp add: trimdouble_01 max_def min_def abs_if)
qed


section \<open>The ramp codec\<close>

text \<open>
  C3, as claimed: at size 256, brightness 1 and multipliers (1, 1, 1) the last element of
  each channel is 65535 within rounding. It is not: the last index is 255, and
  \<open>65535 * 255 / 256\<close> rounds to 65279, which is 256 below 65535.
\<close>

theorem encode_last_counterexample:
  "uint (gred (mkramp \<lparr>red = 1, green = 1, blue = 1\<rparr> 1 256) ! 255) = 65535 - 256 \<and>
   gred (mkramp \<lparr>red = 1, green = 1, blue = 1\<rparr> 1 256) ! 255 \<noteq> 65535"
  by (simp add: mkramp_def rampval_def to_ushort_def ctrunc_def GAMMA_MULT_def)

text \<open>
  C3, amended: at size 256, brightness 1 and multipliers (1, 1, 1) the last element of each
  channel is 65279 (\<open>65535 * 255 / 256\<close> rounded) and the first element is 0.
\<close>

theorem encode_endpoints:
  "gred (mkramp \<lparr>red = 1, green = 1, blue = 1\<rparr> 1 256) ! 255 = 65279 \<and>
   ggreen (mkramp \<lparr>red = 1, green = 1, blue = 1\<rparr> 1 256) ! 255 = 65279 \<and>
   gblue (mkramp \<lparr>red = 1, green = 1, blue = 1\<rparr> 1 256) ! 255 = 65279 \<and>
   gred (mkramp \<lparr>red = 1, green = 1, blue = 1\<rparr> 1 256) ! 0 = 0 \<and>
   ggreen (mkramp \<lparr>red = 1, green = 1, blue = 1\<rparr> 1 256) ! 0 = 0 \<and>
   gblue (mkramp \<lparr>red = 1, green = 1, blue = 1\<rparr> 1 256) ! 0 = 0"
  by (simp add: mkramp_def rampval_def to_ushort_def ctrunc_def GAMMA_MULT_def)

text \<open>
  C10. For multipliers and brightness in \<open>[0, 1]\<close> and a size of at least 1, every channel
  of the encoded ramp is non-decreasing in the index; hence no element exceeds the last
  one, which is the peak that the decoder samples.
\<close>

theorem mkramp_monotone:
  assumes "0 \<le> red sg \<and> red sg \<le> 1" and "0 \<le> green sg \<and> green sg \<le> 1"
    and "0 \<le> blue sg \<and> blue sg \<le> 1" and "0 \<le> b \<and> b \<le> 1"
    and "1 \<le> sz" and "i \<le> j" and "j < sz"
  shows "gred (mkramp sg b sz) ! i \<le> gred (mkramp sg b sz) ! j \<and>
         ggreen (mkramp sg b sz) ! i \<le> ggreen (mkramp sg b sz) ! j \<and>
         gblue (mkramp sg b sz) ! i \<le> gblue (mkramp sg b sz) ! j \<and>
         gred (mkramp sg b sz) ! j \<le> gred (mkramp sg b sz) ! (sz - 1) \<and>
         ggreen (mkramp sg b sz) ! j \<le> ggreen (mkramp sg b sz) ! (sz - 1) \<and>
         gblue (mkramp sg b sz) ! j \<le> gblue (mkramp sg b sz) ! (sz - 1)"
proof -
  have i: "i < sz" and l: "sz - 1 < sz" and jl: "j \<le> sz - 1"
    using assms by simp_all
  have b: "0 \<le> b" "b \<le> 1" using assms by simp_all
  have m: "rampval b sz m i \<le> rampval b sz m j \<and> rampval b sz m j \<le> rampval b sz m (sz - 1)"
    if "0 \<le> m \<and> m \<le> 1" for m
    using that rampval_mono [of m b i j sz] rampval_mono [of m b j "sz - 1" sz] b assms(6,7) jl l
    by simp
  show ?thesis
    using m [OF assms(1)] m [OF assms(2)] m [OF assms(3)] i l assms(7)
    by (simp add: mkramp_def)
qed

theorem mkramp_monotone_witness:
  "(0::real) \<le> 1 \<and> (0::real) \<le> 1 / 2 \<and> (1::real) / 2 \<le> 1 \<and> (1::nat) \<le> 4 \<and> (1::nat) \<le> 3 \<and>
   (3::nat) < 4 \<and>
   gred (mkramp \<lparr>red = 1, green = 1 / 2, blue = 0\<rparr> (1 / 2) 4) ! 1
     \<le> gred (mkramp \<lparr>red = 1, green = 1 / 2, blue = 0\<rparr> (1 / 2) 4) ! 3 \<and>
   ggreen (mkramp \<lparr>red = 1, green = 1 / 2, blue = 0\<rparr> (1 / 2) 4) ! 1
     \<le> ggreen (mkramp \<lparr>red = 1, green = 1 / 2, blue = 0\<rparr> (1 / 2) 4) ! 3 \<and>
   gblue (mkramp \<lparr>red = 1, green = 1 / 2, blue = 0\<rparr> (1 / 2) 4) ! 1
     \<le> gblue (mkramp \<lparr>red = 1, green = 1 / 2, blue = 0\<rparr> (1 / 2) 4) ! 3"
  using mkramp_monotone [of "\<lparr>red = 1, green = 1 / 2, blue = 0\<rparr>" "1 / 2" 4 1 3]
  by simp

section \<open>Round trip\<close>

text \<open>
  C1, as claimed: for each of the six temperatures at brightness 1, encoding, decoding and
  the inverse model recover the temperature within 50K. Not for a ramp of a single point:
  its only element is index 0, which is 0 in every channel, so the decoder sees no signal
  and the estimate is 0.
\<close>

theorem roundtrip_size1_counterexample:
  "setst \<lparr>screens = [[zc]], setlog = [], fail = False\<rparr> 0 (- 1) \<lparr>temp = 6500, brightness = 1\<rparr>
     = Some \<lparr>screens = [[zc]], setlog = [(0, 0, zc)], fail = False\<rparr> \<and>
   getst \<lparr>screens = [[zc]], setlog = [(0, 0, zc)], fail = False\<rparr> 0 (- 1)
     = Some \<lparr>temp = 0, brightness = 0\<rparr> \<and>
   \<not> \<bar>0 - 6500\<bar> \<le> (50 :: int)"
proof -
  have n: "newramp \<lparr>temp = 6500, brightness = 1\<rparr> zc = zc"
    by (simp add: newramp_def mkramp_def rampval_first)
  have "gammatemp 1 (crtcpeak zc) = \<lparr>temp = 0, brightness = 0\<rparr>"
    by (simp add: crtcpeak_def gammatemp_def MAX_c_def trimdouble_def ctrunc_def)
  then show ?thesis
    using setst_single [of zc "\<lparr>temp = 6500, brightness = 1\<rparr>"]
      getst_single [of zc "[(0, 0, zc)]" False] n
    by (simp add: wfcrtc_def)
qed


text \<open>
  C1, amended: for each temperature \<open>t\<close> of 1000, 2700, 4500, 6500, 9000 and 15000 at
  brightness 1, and a controller whose ramp has at least two points, writing the state
  with \<^verbatim>\<open>setst\<close> (forward model and encoding) and reading it back with \<^verbatim>\<open>getst\<close> (decoding
  and inverse model) gives a temperature within 50K of \<open>t\<close>.
\<close>

theorem roundtrip:
  assumes "t \<in> {1000, 2700, 4500, 6500, 9000, 15000}" and "2 \<le> gsize c"
  shows "\<exists>st' ts.
      setst \<lparr>screens = [[c]], setlog = [], fail = False\<rparr> 0 (- 1) \<lparr>temp = t, brightness = 1\<rparr>
        = Some st' \<and>
      getst st' 0 (- 1) = Some ts \<and> \<bar>temp ts - t\<bar> \<le> 50"
proof -
  let ?r = "newramp \<lparr>temp = t, brightness = 1\<rparr> c"
  have r: "?r = mkramp (tempgamma t) 1 (gsize c)"
    by (simp add: newramp_def trimdouble_def)
  have wf: "wfcrtc ?r" unfolding r using assms(2) by (intro wfcrtc_mkramp) simp
  have "\<bar>temp (gammatemp 1 (crtcpeak ?r)) - t\<bar> \<le> 50"
    unfolding r by (rule roundtrip_pure [OF assms])
  then show ?thesis
    using setst_single [of c "\<lparr>temp = t, brightness = 1\<rparr>"] getst_single [OF wf] by simp
qed

theorem roundtrip_witness:
  "\<exists>st' ts.
      setst \<lparr>screens = [[zc2]], setlog = [], fail = False\<rparr> 0 (- 1) \<lparr>temp = 4500, brightness = 1\<rparr>
        = Some st' \<and>
      getst st' 0 (- 1) = Some ts \<and> \<bar>temp ts - 4500\<bar> \<le> 50"
  using roundtrip [of 4500 zc2] by simp

section \<open>The controller aggregator\<close>

text \<open>
  C7. On the read path and on the write path alike: when the controller index is at least
  0 and below the number of controllers of the screen, exactly the controller at that
  index is read (one peak, count 1) or written (one call of \<^verbatim>\<open>XRRSetCrtcGamma\<close>, the
  other ramps untouched); otherwise, the index being the unset value -1, another
  negative value or at least the number of controllers, all controllers are, in order
  from index 0.
\<close>

theorem controller_selection:
  fixes icrtc :: int and crtcs :: "crtcgamma list" and sel :: "nat list"
  defines "sel \<equiv> (if 0 \<le> icrtc \<and> icrtc < int (length crtcs) then [nat icrtc]
                    else [0..<length crtcs])"
  assumes "getscreen st iscreen = Some crtcs" and "cint (int (length crtcs))"
    and "cint icrtc" and "readable icrtc crtcs"
  shows "getscreengamma st iscreen icrtc =
           Some (int (length sel), peaksum (map (\<lambda>c. crtcs ! c) sel)) \<and>
         (\<exists>st'. setst st iscreen icrtc ts = Some st' \<and>
            setlog st' = setlog st @ map (\<lambda>c. (iscreen, c, newramp ts (crtcs ! c))) sel \<and>
            screens st' ! nat iscreen =
              map (\<lambda>c. if c \<in> set sel then newramp ts (crtcs ! c) else crtcs ! c)
                [0..<length crtcs])"
proof -
  have sel: "sel = selected_spec icrtc (length crtcs)"
    by (simp add: sel_def selected_spec_def)
  have s: "0 \<le> iscreen" "nat iscreen < length (screens st)"
    using assms(2) by (auto simp: getscreen_def split: if_splits)
  show ?thesis
    unfolding sel
    using getscreengamma_eq [OF assms(2-5)] setst_eq [OF assms(2-4), of ts] s
    by (simp add: screenwrites_def writecrtcs_def)
qed

theorem controller_selection_witness:
  "getscreengamma \<lparr>screens = [[zc, oc]], setlog = [], fail = False\<rparr> 0 1
     = Some (1, peaksum [oc]) \<and>
   getscreengamma \<lparr>screens = [[zc, oc]], setlog = [], fail = False\<rparr> 0 2
     = Some (2, peaksum [zc, oc]) \<and>
   getscreengamma \<lparr>screens = [[zc, oc]], setlog = [], fail = False\<rparr> 0 (- 1)
     = Some (2, peaksum [zc, oc])"
  using controller_selection [of "\<lparr>screens = [[zc, oc]], setlog = [], fail = False\<rparr>" 0 "[zc, oc]" 1]
    controller_selection [of "\<lparr>screens = [[zc, oc]], setlog = [], fail = False\<rparr>" 0 "[zc, oc]" 2]
    controller_selection [of "\<lparr>screens = [[zc, oc]], setlog = [], fail = False\<rparr>" 0 "[zc, oc]" "- 1"]
  by (simp add: getscreen_def cint_def readable_def wfcrtc_def selected_spec_def upt_rec)



section \<open>The policy layer\<close>

text \<open>
  C5. In toggle mode every screen \<open>i\<close> below \<open>nscreen\<close> is read, and when the estimated
  temperature is greater than the day default minus 200 the night default is written to
  it, otherwise the day default: the controllers of the screen afterwards, and the calls
  of \<^verbatim>\<open>XRRSetCrtcGamma\<close> made for it, are those of a write of that temperature with the
  brightness that was read.
\<close>

theorem toggle_day_night:
  assumes "cint (crtc_arg g)" and "0 \<le> i" and "i < nscreen"
    and "nscreen \<le> int (length (screens st))"
    and "\<forall>k\<in>{0..<nat nscreen}. screenok (crtc_arg g) (screens st ! k)"
  shows "\<exists>st' ts. toggledaynight g nscreen st = Some st' \<and>
           getst st i (crtc_arg g) = Some ts \<and>
           screens st' ! nat i =
             writecrtcs (crtc_arg g)
               \<lparr>temp = (if temp ts > temp_day g - 200 then temp_night g else temp_day g),
                brightness = brightness ts\<rparr> (screens st ! nat i) \<and>
           filter (\<lambda>w. fst w = i) (drop (length (setlog st)) (setlog st')) =
             screenwrites i (crtc_arg g)
               \<lparr>temp = (if temp ts > temp_day g - 200 then temp_night g else temp_day g),
                brightness = brightness ts\<rparr> (screens st ! nat i)"
proof -
  let ?c = "crtc_arg g"
  let ?ts = "readcrtcs ?c (screens st ! nat i)"
  have ok: "screenok ?c (screens st ! nat i)" using assms(2,3,5) by simp
  have gs: "getscreen st i = Some (screens st ! nat i)"
    using assms(2-4) by (simp add: getscreen_Some)
  have r: "getst st i ?c = Some ?ts"
    using ok by (intro getst_eq [OF gs _ assms(1)]) (simp_all add: screenok_def)
  have tt: "toggletemp g ?ts =
      \<lparr>temp = (if temp ?ts > temp_day g - 200 then temp_night g else temp_day g),
       brightness = brightness ?ts\<rparr>"
    by (simp add: toggletemp_def TOGGLE_DELTA_def)
  have i: "nat i < length (screens st)" "int (nat i) \<in> set [0..nscreen - 1]"
    "i \<in> set [0..nscreen - 1]"
    using assms(2-4) by auto
  have s: "screens (rwresult (toggletemp g) ?c [0..nscreen - 1] st) ! nat i
      = writecrtcs ?c (toggletemp g ?ts) (screens st ! nat i)"
    unfolding rwresult_def using i(1,2) by (simp del: set_upto)
  have l: "filter (\<lambda>w. fst w = i)
        (drop (length (setlog st)) (setlog (rwresult (toggletemp g) ?c [0..nscreen - 1] st)))
      = screenwrites i ?c (toggletemp g ?ts) (screens st ! nat i)"
    unfolding rwresult_def
    using filter_concat_screenwrites [OF distinct_upto i(3), of ?c
        "\<lambda>k. toggletemp g (readcrtcs ?c (screens st ! nat k))" "\<lambda>k. screens st ! nat k"]
    by simp
  show ?thesis
    using toggledaynight_eq [OF assms(1,4,5)] r s l unfolding tt by blast
qed


theorem toggle_day_night_witness:
  "\<exists>st'. toggledaynight g0 1 st0 = Some st' \<and>
     getst st0 0 (- 1) = Some \<lparr>temp = 0, brightness = 0\<rparr> \<and>
     screens st' ! 0 = writecrtcs (- 1) \<lparr>temp = 6500, brightness = 0\<rparr> [zc2] \<and>
     filter (\<lambda>w. fst w = 0) (setlog st') =
       screenwrites 0 (- 1) \<lparr>temp = 6500, brightness = 0\<rparr> [zc2]"
proof -
  have h: "cint (crtc_arg g0)" "(0::int) \<le> 0" "(0::int) < 1" "1 \<le> int (length (screens st0))"
    "\<forall>k\<in>{0..<nat 1}. screenok (crtc_arg g0) (screens st0 ! k)"
    by (simp_all add: cint_def screenok_def readable_def selected_spec_def wfcrtc_def)
  from toggle_day_night [OF h] obtain st' ts where
    "toggledaynight g0 1 st0 = Some st'" "getst st0 0 (crtc_arg g0) = Some ts"
    "screens st' ! nat 0 =
       writecrtcs (crtc_arg g0)
         \<lparr>temp = (if temp ts > temp_day g0 - 200 then temp_night g0 else temp_day g0),
          brightness = brightness ts\<rparr> (screens st0 ! nat 0)"
    "filter (\<lambda>w. fst w = 0) (drop (length (setlog st0)) (setlog st')) =
       screenwrites 0 (crtc_arg g0)
         \<lparr>temp = (if temp ts > temp_day g0 - 200 then temp_night g0 else temp_day g0),
          brightness = brightness ts\<rparr> (screens st0 ! nat 0)"
    by blast
  then show ?thesis using getst_st0 by auto
qed


text \<open>
  C6. With the toggle flag and a single screen selected by the screen argument, the toggle
  reads and writes every screen of the server, whatever the screen argument is; what
  remains of \<^verbatim>\<open>main\<close> (estimate, absolute or delta mode) runs on the state the toggle
  left, so every write it makes comes after all writes of the toggle, and it writes to the
  selected screen only.
\<close>

theorem toggle_before_rest:
  assumes "flags AND has_h = 0" and "flags AND has_t \<noteq> 0"
    and "0 \<le> screen_arg g" and "screen_arg g < int (length (screens st))"
    and "cint (crtc_arg g)"
    and "\<forall>k\<in>{0..<length (screens st)}. screenok (crtc_arg g) (screens st ! k)"
  shows "\<exists>st1. toggledaynight g (int (length (screens st))) st = Some st1 \<and>
      mainsct g flags ts st = mainrest g flags ts (int (length (screens st))) st1 \<and>
      (\<forall>k<length (screens st).
         screens st1 ! k =
           writecrtcs (crtc_arg g) (toggletemp g (readcrtcs (crtc_arg g) (screens st ! k)))
             (screens st ! k) \<and>
         filter (\<lambda>w. fst w = int k) (drop (length (setlog st)) (setlog st1)) =
           screenwrites (int k) (crtc_arg g)
             (toggletemp g (readcrtcs (crtc_arg g) (screens st ! k))) (screens st ! k)) \<and>
      (\<forall>st2. mainsct g flags ts st = Some st2 \<longrightarrow>
         (\<exists>ws. setlog st2 = setlog st1 @ ws \<and> (\<forall>w\<in>set ws. fst w = screen_arg g)))"
proof -
  let ?n = "int (length (screens st))"
  let ?st1 = "rwresult (toggletemp g) (crtc_arg g) [0..?n - 1] st"
  have t: "toggledaynight g ?n st = Some ?st1"
    using assms(6) by (intro toggledaynight_eq [OF assms(5)]) simp_all
  have m: "mainsct g flags ts st = mainrest g flags ts ?n ?st1"
    using assms(1,2,4) by (simp add: mainsct_def Let_def t)
  have s: "screens ?st1 ! k =
           writecrtcs (crtc_arg g) (toggletemp g (readcrtcs (crtc_arg g) (screens st ! k)))
             (screens st ! k) \<and>
         filter (\<lambda>w. fst w = int k) (drop (length (setlog st)) (setlog ?st1)) =
           screenwrites (int k) (crtc_arg g)
             (toggletemp g (readcrtcs (crtc_arg g) (screens st ! k))) (screens st ! k)"
    if "k < length (screens st)" for k
  proof -
    have k: "int k \<in> set [0..?n - 1]" using that by simp
    show ?thesis
      using rwresult_screen [OF that k] rwresult_filter [OF distinct_upto k] by simp
  qed
  have l: "\<exists>ws. setlog st2 = setlog ?st1 @ ws \<and> (\<forall>w\<in>set ws. fst w = screen_arg g)"
    if "mainsct g flags ts st = Some st2" for st2
    using that mainrest_log [OF _ assms(3)] unfolding m by blast
  show ?thesis using t m s l by blast
qed

theorem toggle_before_rest_witness:
  "\<exists>st1. toggledaynight (g0\<lparr>screen_arg := 0\<rparr>) 2 \<lparr>screens = [[zc], [oc]], setlog = [], fail = False\<rparr>
       = Some st1 \<and>
     mainsct (g0\<lparr>screen_arg := 0\<rparr>) has_t \<lparr>temp = 3000, brightness = 1\<rparr>
         \<lparr>screens = [[zc], [oc]], setlog = [], fail = False\<rparr>
       = mainrest (g0\<lparr>screen_arg := 0\<rparr>) has_t \<lparr>temp = 3000, brightness = 1\<rparr> 2 st1 \<and>
     screens st1 ! 1 =
       writecrtcs (- 1) (toggletemp (g0\<lparr>screen_arg := 0\<rparr>) (readcrtcs (- 1) [oc])) [oc] \<and>
     filter (\<lambda>w. fst w = 1) (setlog st1) =
       screenwrites 1 (- 1) (toggletemp (g0\<lparr>screen_arg := 0\<rparr>) (readcrtcs (- 1) [oc])) [oc]"
proof -
  let ?g = "g0\<lparr>screen_arg := 0\<rparr>"
  let ?st = "\<lparr>screens = [[zc], [oc]], setlog = [], fail = False\<rparr>"
  have h: "has_t AND has_h = 0" "has_t AND has_t \<noteq> 0" "0 \<le> screen_arg ?g"
    "screen_arg ?g < int (length (screens ?st))" "cint (crtc_arg ?g)"
    "\<forall>k\<in>{0..<length (screens ?st)}. screenok (crtc_arg ?g) (screens ?st ! k)"
    by (simp_all add: has_t_def has_h_def cint_def screenok_def readable_def selected_spec_def
        wfcrtc_def nth_Cons')
  from toggle_before_rest [OF h, of "\<lparr>temp = 3000, brightness = 1\<rparr>"]
  obtain st1 where a: "toggledaynight ?g (int (length (screens ?st))) ?st = Some st1"
    and b: "mainsct ?g has_t \<lparr>temp = 3000, brightness = 1\<rparr> ?st
       = mainrest ?g has_t \<lparr>temp = 3000, brightness = 1\<rparr> (int (length (screens ?st))) st1"
    and c: "\<forall>k<length (screens ?st).
         screens st1 ! k =
           writecrtcs (crtc_arg ?g) (toggletemp ?g (readcrtcs (crtc_arg ?g) (screens ?st ! k)))
             (screens ?st ! k) \<and>
         filter (\<lambda>w. fst w = int k) (drop (length (setlog ?st)) (setlog st1)) =
           screenwrites (int k) (crtc_arg ?g)
             (toggletemp ?g (readcrtcs (crtc_arg ?g) (screens ?st ! k))) (screens ?st ! k)"
    by blast
  have "(1::nat) < length (screens ?st)" by simp
  from c [rule_format, OF this] have "screens st1 ! 1 =
           writecrtcs (crtc_arg ?g) (toggletemp ?g (readcrtcs (crtc_arg ?g) (screens ?st ! 1)))
             (screens ?st ! 1) \<and>
         filter (\<lambda>w. fst w = int 1) (drop (length (setlog ?st)) (setlog st1)) =
           screenwrites (int 1) (crtc_arg ?g)
             (toggletemp ?g (readcrtcs (crtc_arg ?g) (screens ?st ! 1))) (screens ?st ! 1)"
    by simp
  with a b show ?thesis by simp
qed


text \<open>
  C8, as claimed: in delta mode with exactly one of the two deltas supplied, the exit code
  is nonzero and no ramp is written on any screen. With the toggle flag also given
  (\<^verbatim>\<open>xsct -t -d 100\<close>) the toggle has already written the ramp of the screen when
  \<^verbatim>\<open>deltasct\<close> reports the error; and with the help flag (\<^verbatim>\<open>xsct -d 100 -h\<close>) the usage
  text is printed, \<^verbatim>\<open>deltasct\<close> is not called and the exit code is 0.
\<close>

theorem delta_toggle_counterexample:
  "map_option setlog
     (mainsct g0 (has_d OR has_t) \<lparr>temp = 100, brightness = real_of_int MIN_DELTA\<rparr> st0)
   = Some [(0, 0, zc2)] \<and>
   map_option exitcode
     (mainsct g0 (has_d OR has_h) \<lparr>temp = 100, brightness = real_of_int MIN_DELTA\<rparr> st0)
   = Some 0"
  by (simp add: mainsct_def mainrest_def deltasct_def Let_def toggle_st0 has_d_def has_t_def
      has_h_def MIN_DELTA_def exitcode_def EXIT_SUCCESS_def)

text \<open>
  C8, amended: when \<^verbatim>\<open>main\<close> reaches the delta step (delta flag set, no help flag, a
  valid screen index) with exactly one of the two deltas left at the unset value, the
  delta step sets the failure flag, so that the exit code is \<^verbatim>\<open>EXIT_FAILURE\<close> (1), and
  writes no ramp: without the toggle flag the state of the server is unchanged, and with
  it the state is the one the toggle step left.
\<close>

theorem delta_one_sentinel:
  assumes "flags AND has_h = 0" and "flags AND has_d \<noteq> 0"
    and "screen_arg g < int (length (screens st))"
    and "(temp ts = MIN_DELTA) \<noteq> (brightness ts = real_of_int MIN_DELTA)"
  shows "(flags AND has_t = 0 \<longrightarrow> mainsct g flags ts st = Some (st\<lparr>fail := True\<rparr>)) \<and>
         (flags AND has_t \<noteq> 0 \<longrightarrow>
            mainsct g flags ts st =
              map_option (\<lambda>st1. st1\<lparr>fail := True\<rparr>)
                (toggledaynight g (int (length (screens st))) st)) \<and>
         (\<forall>st'. mainsct g flags ts st = Some st' \<longrightarrow> exitcode st' = 1)"
  using assms
  by (auto simp: mainsct_def mainrest_def deltasct_def Let_def exitcode_def EXIT_FAILURE_def
      split: option.splits)

theorem delta_one_sentinel_witness:
  "mainsct g0 has_d \<lparr>temp = 100, brightness = real_of_int MIN_DELTA\<rparr> st0
     = Some (st0\<lparr>fail := True\<rparr>) \<and>
   exitcode (st0\<lparr>fail := True\<rparr>) = 1 \<and>
   mainsct g0 (has_d OR has_t) \<lparr>temp = 100, brightness = real_of_int MIN_DELTA\<rparr> st0
     = map_option (\<lambda>st1. st1\<lparr>fail := True\<rparr>) (toggledaynight g0 1 st0)"
  using delta_one_sentinel [of has_d g0 st0 "\<lparr>temp = 100, brightness = real_of_int MIN_DELTA\<rparr>"]
    delta_one_sentinel [of "has_d OR has_t" g0 st0
      "\<lparr>temp = 100, brightness = real_of_int MIN_DELTA\<rparr>"]
  by (simp add: has_d_def has_t_def has_h_def MIN_DELTA_def)


text \<open>
  C4, evaluated where the code departs from it. The screen shows the blanked ramp, so the
  state read is temperature 0 and brightness 0; the deltas are -500 and 0.5. The sum is
  (-500, 0.5), and bound-checked it is (6500, 0.5), whose ramp has all three channels at
  16384 on the last point. \<^verbatim>\<open>boundts\<close> drops what \<^verbatim>\<open>boundtemp\<close> and \<^verbatim>\<open>boundbrightness\<close>
  return, so the ramp written is that of temperature -500: red only.
\<close>

theorem deltasct_drops_bounds:
  "map_option setlog (deltasct g0 \<lparr>temp = - 500, brightness = 1 / 2\<rparr> 0 0 st0)
     = Some [(0, 0, \<lparr>gsize = 2, gred = [0, 16384], ggreen = [0, 0], gblue = [0, 0]\<rparr>)] \<and>
   getst st0 0 (- 1) = Some \<lparr>temp = 0, brightness = 0\<rparr> \<and>
   boundtemp (0 + (- 500)) (- 1) = 6500 \<and> boundbrightness (0 + 1 / 2) = 1 / 2 \<and>
   newramp \<lparr>temp = 6500, brightness = 1 / 2\<rparr> zc2
     = \<lparr>gsize = 2, gred = [0, 16384], ggreen = [0, 16384], gblue = [0, 16384]\<rparr>"
proof -
  let ?f = "\<lambda>dts. \<lparr>temp = temp dts + (- 500), brightness = brightness dts + 1 / 2\<rparr>"
  have "deltasct g0 \<lparr>temp = - 500, brightness = 1 / 2\<rparr> 0 0 st0
      = rwscreens ?f (- 1) [0] st0"
    by (simp add: deltasct_def MIN_DELTA_def deltascreens_rw)
  also have "\<dots> = Some (rwresult ?f (- 1) [0] st0)"
    by (rule rwscreens_eq)
      (simp_all add: cint_def screenok_def readable_def selected_spec_def wfcrtc_def)
  finally have d: "deltasct g0 \<lparr>temp = - 500, brightness = 1 / 2\<rparr> 0 0 st0
      = Some (rwresult ?f (- 1) [0] st0)" .
  have n: "newramp \<lparr>temp = - 500, brightness = 1 / 2\<rparr> zc2
      = \<lparr>gsize = 2, gred = [0, 16384], ggreen = [0, 0], gblue = [0, 0]\<rparr>"
    by (simp add: newramp_def mkramp_def tempgamma_def TEMP_NORM_def MINTEMP_def rampval_def
        to_ushort_def ctrunc_def trimdouble_def GAMMA_MULT_def upt_rec)
  have "setlog (rwresult ?f (- 1) [0] st0)
      = [(0, 0, \<lparr>gsize = 2, gred = [0, 16384], ggreen = [0, 0], gblue = [0, 0]\<rparr>)]"
    by (simp add: rwresult_def screenwrites_def selected_spec_def readcrtcs_zc2 n)
  then show ?thesis
    using d getst_st0 newramp_6500_half
    by (simp add: boundtemp_def boundbrightness_def TEMP_NORM_def)
qed


end
